theory Spec2Isabelle
  imports Complex_Main
begin

section \<open>JavaScript values and built-ins used by the scripts\<close>

text \<open>
  A field of a parsed row is either absent (\<open>undefined\<close> or \<open>null\<close>, which every use in the
  scripts treats alike) or a string. A numeric field of a Parquet record is represented by
  the string \<open>String(val)\<close> that \<open>parseInt\<close> and \<open>parseFloat\<close> receive. A row object is a
  dictionary from column names to such values.

  Numbers are exact: \<open>parseFloat\<close> yields the decimal value it reads as a real, and
  arithmetic is that of the reals. Rounding to binary64 and \<open>\<plusminus>Infinity\<close> are outside the
  model; \<open>NaN\<close> is a value of its own wherever the code tests for it. White space is the
  ASCII white space.
\<close>

type_synonym jsval = "string option"

type_synonym row = "string \<rightharpoonup> string"

datatype jsint = NaN | Null | IntVal int

definition isWhiteSpace :: "char \<Rightarrow> bool" where
  "isWhiteSpace c = (c \<in> set [CHR '' '', CHR 0x09, CHR 0x0A, CHR 0x0B, CHR 0x0C, CHR 0x0D])"

definition isDigit :: "char \<Rightarrow> bool" where
  "isDigit c = (c \<in> set ''0123456789'')"

definition digitVal :: "char \<Rightarrow> nat" where
  "digitVal c = of_char c - 48"

definition digitsVal :: "string \<Rightarrow> nat" where
  "digitsVal ds = foldl (\<lambda>acc c. 10 * acc + digitVal c) 0 ds"

definition trim :: "string \<Rightarrow> string" where
  "trim s = rev (dropWhile isWhiteSpace (rev (dropWhile isWhiteSpace s)))"

definition removeCommas :: "string \<Rightarrow> string" where
  \<comment> \<open>\<open>s.replace(/,/g, '')\<close>\<close>
  "removeCommas s = filter (\<lambda>c. c \<noteq> CHR '','') s"

definition splitSign :: "string \<Rightarrow> bool \<times> string" where
  \<comment> \<open>an optional leading \<open>+\<close> or \<open>-\<close>; the flag says that the sign is \<open>-\<close>\<close>
  "splitSign s =
     (case s of
        [] \<Rightarrow> (False, [])
      | c # r \<Rightarrow> if c = CHR ''-'' then (True, r) else if c = CHR ''+'' then (False, r) else (False, s))"

definition parseInt :: "string \<Rightarrow> int option" where
  \<comment> \<open>\<open>parseInt(s, 10)\<close>; \<open>None\<close> is \<open>NaN\<close>\<close>
  "parseInt s =
     (let (neg, u) = splitSign (dropWhile isWhiteSpace s);
          ds = takeWhile isDigit u
      in if ds = [] then None
         else Some (if neg then - int (digitsVal ds) else int (digitsVal ds)))"

definition exponentPart :: "string \<Rightarrow> int" where
  \<comment> \<open>the value of an exponent part \<open>e[+-]digits\<close> at the head of the string, else 0\<close>
  "exponentPart s =
     (case s of
        [] \<Rightarrow> 0
      | c # r \<Rightarrow>
          if c = CHR ''e'' \<or> c = CHR ''E'' then
            (let (neg, u) = splitSign r; ds = takeWhile isDigit u
             in if ds = [] then 0
                else if neg then - int (digitsVal ds) else int (digitsVal ds))
          else 0)"

definition scale10 :: "real \<Rightarrow> int \<Rightarrow> real" where
  "scale10 m e = (if 0 \<le> e then m * 10 ^ nat e else m / 10 ^ nat (- e))"

definition parseFloat :: "string \<Rightarrow> real option" where
  \<comment> \<open>\<open>parseFloat(s)\<close> on decimal literals; \<open>None\<close> is \<open>NaN\<close>\<close>
  "parseFloat s =
     (let (neg, u) = splitSign (dropWhile isWhiteSpace s);
          ip = takeWhile isDigit u;
          r1 = dropWhile isDigit u;
          (fp, r2) = (case r1 of
                        [] \<Rightarrow> ([], [])
                      | c # r \<Rightarrow> if c = CHR ''.'' then (takeWhile isDigit r, dropWhile isDigit r)
                                else ([], r1))
      in if ip = [] \<and> fp = [] then None
         else
           (let m = scale10 (real (digitsVal (ip @ fp))) (exponentPart r2 - int (length fp))
            in Some (if neg then - m else m)))"

definition Math_round :: "real \<Rightarrow> int" where
  "Math_round x = \<lfloor>x + 1 / 2\<rfloor>"

text \<open>
  The \<open>Date\<close> object belongs to the runtime: how a string that is not in ISO format is
  parsed, and the local time zone of \<open>getHours\<close>, \<open>getDay\<close> and \<open>getMonth\<close>, depend on the
  engine and the machine. The scripts are therefore embedded over any \<open>Date\<close>. A time value
  is the number of milliseconds since the epoch; \<open>None\<close> is the invalid date.
\<close>

record date_api =
  Date_parse :: "string \<Rightarrow> int option"
  Date_getHours :: "int \<Rightarrow> int"
  Date_getDay :: "int \<Rightarrow> int"
  Date_getMonth :: "int \<Rightarrow> int"
  Date_toISOString :: "int \<Rightarrow> string"

section \<open>scripts/importData.js\<close>

definition MILES_TO_KM :: real where
  "MILES_TO_KM = 1.60934"

definition BATCH_SIZE :: nat where
  "BATCH_SIZE = 2000"

definition parseNum :: "jsval \<Rightarrow> real \<Rightarrow> real" where
  "parseNum val def =
     (case val of
        None \<Rightarrow> def
      | Some s \<Rightarrow>
          if s = [] then def
          else (case parseFloat (removeCommas s) of None \<Rightarrow> def | Some n \<Rightarrow> n))"

definition parseIntStrict :: "jsval \<Rightarrow> jsint \<Rightarrow> jsint" where
  "parseIntStrict val def =
     (case val of
        None \<Rightarrow> def
      | Some s \<Rightarrow>
          if s = [] then def
          else (case parseInt (removeCommas s) of None \<Rightarrow> def | Some n \<Rightarrow> IntVal n))"

definition parseTimestamp :: "date_api \<Rightarrow> jsval \<Rightarrow> int option" where
  "parseTimestamp D val =
     (case val of
        None \<Rightarrow> None
      | Some s \<Rightarrow> if s = [] then None else Date_parse D s)"

definition hourMatch :: "string \<Rightarrow> string option" where
  \<comment> \<open>the group captured by \<open>/^\d{4}-\d{2}-\d{2}\s(\d{1,2}):/\<close>, if the string matches\<close>
  "hourMatch s =
     (if 11 \<le> length s
         \<and> list_all isDigit (take 4 s) \<and> s ! 4 = CHR ''-''
         \<and> list_all isDigit (take 2 (drop 5 s)) \<and> s ! 7 = CHR ''-''
         \<and> list_all isDigit (take 2 (drop 8 s)) \<and> isWhiteSpace (s ! 10)
      then
        (case drop 11 s of
           h1 # h2 # rest \<Rightarrow>
             if isDigit h1 \<and> isDigit h2 \<and> take 1 rest = '':'' then Some [h1, h2]
             else if isDigit h1 \<and> h2 = CHR '':'' then Some [h1]
             else None
         | _ \<Rightarrow> None)
      else None)"

definition getHourFromTimestamp :: "date_api \<Rightarrow> jsval \<Rightarrow> int" where
  "getHourFromTimestamp D val =
     (case val of
        None \<Rightarrow> 0
      | Some v \<Rightarrow>
          if v = [] then 0
          else
            (case hourMatch (trim v) of
               Some h \<Rightarrow> int (digitsVal h) mod 24
             | None \<Rightarrow> (case Date_parse D v of None \<Rightarrow> 0 | Some d \<Rightarrow> Date_getHours D d)))"

definition getDayMonthFromTimestamp :: "date_api \<Rightarrow> jsval \<Rightarrow> int \<times> int" where
  \<comment> \<open>the pair is \<open>(day, month)\<close>\<close>
  "getDayMonthFromTimestamp D val =
     (case val of
        None \<Rightarrow> (0, 1)
      | Some v \<Rightarrow>
          if v = [] then (0, 1)
          else (case Date_parse D v of
                  None \<Rightarrow> (0, 1)
                | Some d \<Rightarrow> (Date_getDay D d, Date_getMonth D d + 1)))"

text \<open>
  A row of the \<open>zones\<close> table (scripts/setupDatabase.js): \<open>location_id\<close> is the primary
  key, every other column may be \<open>NULL\<close> (\<open>None\<close>). The zone map built by \<open>loadZoneMap\<close>
  keeps \<open>borough\<close>, \<open>zone\<close> and \<open>service_zone\<close> under the key \<open>location_id\<close>.
\<close>

record zone_info =
  borough :: "string option"
  zone :: "string option"
  service_zone :: "string option"

record zone_row = zone_info +
  location_id :: int
  centroid_lat :: "real option"
  centroid_lon :: "real option"

type_synonym zone_map = "int \<rightharpoonup> zone_info"

definition loadZoneMap :: "zone_row list \<Rightarrow> zone_map" where
  "loadZoneMap rows = foldl (\<lambda>m r. m(location_id r \<mapsto> zone_info.truncate r)) Map.empty rows"

definition has :: "zone_map \<Rightarrow> jsint \<Rightarrow> bool" where
  \<comment> \<open>\<open>zoneMap.has(key)\<close>: the keys of the map are integers\<close>
  "has m key = (case key of IntVal n \<Rightarrow> m n \<noteq> None | _ \<Rightarrow> False)"

definition get :: "zone_map \<Rightarrow> jsint \<Rightarrow> zone_info option" where
  \<comment> \<open>\<open>zoneMap.get(key)\<close>; \<open>None\<close> is \<open>undefined\<close>\<close>
  "get m key = (case key of IntVal n \<Rightarrow> m n | _ \<Rightarrow> None)"

definition lt :: "jsint \<Rightarrow> int \<Rightarrow> bool" where
  \<comment> \<open>\<open>a < b\<close> on numbers: false on \<open>NaN\<close>, and \<open>null\<close> counts as 0\<close>
  "lt a b = (case a of NaN \<Rightarrow> False | Null \<Rightarrow> 0 < b | IntVal n \<Rightarrow> n < b)"

definition gt :: "jsint \<Rightarrow> int \<Rightarrow> bool" where
  "gt a b = (case a of NaN \<Rightarrow> False | Null \<Rightarrow> 0 > b | IntVal n \<Rightarrow> n > b)"

datatype reason =
    invalid_or_unknown_zone
  | invalid_timestamp
  | duration_out_of_range
  | invalid_passenger_count
  | trip_distance_out_of_range
  | fare_out_of_range
  | total_amount_out_of_range

text \<open>The object returned by \<open>isValidTrip\<close> when \<open>ok\<close> is true; \<open>doLoc\<close> is its field \<open>do\<close>.\<close>

record ctx =
  durationSec :: int
  tripDistance :: real
  fareAmount :: real
  totalAmount :: real
  pu :: jsint
  doLoc :: jsint
  pickup :: int
  dropoff :: int
  passengers :: jsint
  row :: row

text \<open>
  \<open>isValidTrip\<close> reads the global \<open>zoneMap\<close>, which is \<open>null\<close> (\<open>None\<close>) until \<open>importData\<close>
  has loaded it. \<open>Inl reason\<close> is the result \<open>{ ok: false, reason }\<close>.
\<close>

definition isValidTrip :: "date_api \<Rightarrow> zone_map option \<Rightarrow> row \<Rightarrow> reason + ctx" where
  "isValidTrip D zoneMap r =
     (let pu = parseIntStrict (r ''PULocationID'') NaN;
          doLoc = parseIntStrict (r ''DOLocationID'') NaN
      in
      if (case zoneMap of None \<Rightarrow> True | Some m \<Rightarrow> \<not> has m pu \<or> \<not> has m doLoc)
      then Inl invalid_or_unknown_zone
      else
        (let pickup = parseTimestamp D (r ''tpep_pickup_datetime'');
             dropoff = parseTimestamp D (r ''tpep_dropoff_datetime'')
         in
         if pickup = None \<or> dropoff = None then Inl invalid_timestamp
         else
           (let durationSec = Math_round (real_of_int (the dropoff - the pickup) / 1000) in
            if durationSec < 60 \<or> durationSec > 86400 then Inl duration_out_of_range
            else
              (let passengers = parseIntStrict (r ''passenger_count'') (IntVal (- 1)) in
               if lt passengers 0 \<or> gt passengers 9 then Inl invalid_passenger_count
               else
                 (let tripDistance = parseNum (r ''trip_distance'') (- 1) in
                  if tripDistance < 0 \<or> tripDistance > 500 then Inl trip_distance_out_of_range
                  else
                    (let fareAmount = parseNum (r ''fare_amount'') (- 1) in
                     if fareAmount < 0 \<or> fareAmount > 10000 then Inl fare_out_of_range
                     else
                       (let totalAmount = parseNum (r ''total_amount'') (- 1) in
                        if totalAmount < 0 \<or> totalAmount > 10000
                        then Inl total_amount_out_of_range
                        else Inr \<lparr>durationSec = durationSec, tripDistance = tripDistance,
                                  fareAmount = fareAmount, totalAmount = totalAmount,
                                  pu = pu, doLoc = doLoc,
                                  pickup = the pickup, dropoff = the dropoff,
                                  passengers = passengers, row = r\<rparr>)))))))"

datatype js_error = TypeError | RangeError

record trip =
  vendor_id :: jsint
  tpep_pickup_datetime :: int
  tpep_dropoff_datetime :: int
  passenger_count :: jsint
  trip_distance :: real
  rate_code_id :: jsint
  store_and_fwd_flag :: "string option"
  pu_location_id :: jsint
  do_location_id :: jsint
  payment_type :: jsint
  fare_amount :: real
  extra :: real
  mta_tax :: real
  tip_amount :: real
  tolls_amount :: real
  improvement_surcharge :: real
  total_amount :: real
  congestion_surcharge :: real
  trip_duration_sec :: int
  speed_kmh :: real
  fare_per_km :: real
  tip_rate :: real
  hour_of_day :: int
  day_of_week :: int
  month :: int
  pickup_borough :: "string option"
  dropoff_borough :: "string option"
  trip_type :: string

definition truthy :: "string option \<Rightarrow> bool" where
  \<comment> \<open>a string or \<open>null\<close> in a condition: \<open>null\<close> and the empty string are falsy\<close>
  "truthy v = (case v of None \<Rightarrow> False | Some s \<Rightarrow> s \<noteq> [])"

definition storeAndFwdFlag :: "jsval \<Rightarrow> string option" where
  \<comment> \<open>\<open>(val || 'N').toString().trim().charAt(0) || null\<close>\<close>
  "storeAndFwdFlag val =
     (case trim (if truthy val then the val else ''N'') of
        [] \<Rightarrow> None
      | c # _ \<Rightarrow> Some [c])"

text \<open>
  \<open>enrich\<close> calls \<open>zoneMap.get\<close>, which throws a \<open>TypeError\<close> while \<open>zoneMap\<close> is \<open>null\<close>.
\<close>

definition enrich :: "date_api \<Rightarrow> zone_map option \<Rightarrow> row \<Rightarrow> ctx \<Rightarrow> js_error + trip" where
  "enrich D zoneMap r c =
     (let tipAmount = parseNum (r ''tip_amount'') 0;
          totalAmount = totalAmount c;
          tipRate = (if totalAmount > 0 then tipAmount / totalAmount else 0);
          distanceKm = tripDistance c * MILES_TO_KM;
          durationHours = real_of_int (durationSec c) / 3600;
          speedKmh = (if durationHours > 0 then distanceKm / durationHours else 0);
          farePerKm = (if distanceKm > 0 then fareAmount c / distanceKm else 0)
      in
      case zoneMap of
        None \<Rightarrow> Inl TypeError
      | Some m \<Rightarrow>
         (let puZone = get m (pu c);
              doZone = get m (doLoc c);
              pickupBorough = (case puZone of Some z \<Rightarrow> borough z | None \<Rightarrow> Some []);
              dropoffBorough = (case doZone of Some z \<Rightarrow> borough z | None \<Rightarrow> Some []);
              tripType = (if truthy pickupBorough \<and> truthy dropoffBorough
                             \<and> pickupBorough \<noteq> dropoffBorough
                          then ''Cross Borough'' else ''Within Borough'');
              dm = getDayMonthFromTimestamp D (r ''tpep_pickup_datetime'')
          in Inr \<lparr>vendor_id = parseIntStrict (r ''VendorID'') Null,
                  tpep_pickup_datetime = pickup c,
                  tpep_dropoff_datetime = dropoff c,
                  passenger_count = passengers c,
                  trip_distance = tripDistance c,
                  rate_code_id = parseIntStrict (r ''RatecodeID'') Null,
                  store_and_fwd_flag = storeAndFwdFlag (r ''store_and_fwd_flag''),
                  pu_location_id = pu c,
                  do_location_id = doLoc c,
                  payment_type = parseIntStrict (r ''payment_type'') Null,
                  fare_amount = fareAmount c,
                  extra = parseNum (r ''extra'') 0,
                  mta_tax = parseNum (r ''mta_tax'') 0,
                  tip_amount = tipAmount,
                  tolls_amount = parseNum (r ''tolls_amount'') 0,
                  improvement_surcharge = parseNum (r ''improvement_surcharge'') 0,
                  total_amount = totalAmount,
                  congestion_surcharge = parseNum (r ''congestion_surcharge'') 0,
                  trip_duration_sec = durationSec c,
                  speed_kmh = min 200 speedKmh,
                  fare_per_km = farePerKm,
                  tip_rate = tipRate,
                  hour_of_day = getHourFromTimestamp D (r ''tpep_pickup_datetime''),
                  day_of_week = fst dm,
                  month = snd dm,
                  pickup_borough = pickupBorough,
                  dropoff_borough = dropoffBorough,
                  trip_type = tripType\<rparr>))"

text \<open>
  The trips table and the exclusion log are the script's outside world. The bulk
  \<open>INSERT\<close> of \<open>insertBatch\<close> is a parameter \<open>query\<close> that maps the rows and the database
  to the new database or to an error, so that every way the statement can fail is covered.
  The exclusion log is the list of the lines appended, without their time stamps.
\<close>

datatype 'e import_error = Thrown js_error | QueryFailed 'e

record 'db import_state =
  processed :: nat
  valid :: nat
  invalid :: nat
  batch :: "trip list"
  db :: 'db
  exclusions :: "(reason \<times> row) list"

record import_stats =
  stat_processed :: nat
  stat_valid :: nat
  stat_invalid :: nat

definition insertBatch :: "(trip list \<Rightarrow> 'db \<Rightarrow> 'e + 'db) \<Rightarrow> 'db \<Rightarrow> trip list \<Rightarrow> 'e + 'db" where
  "insertBatch query d b = (if length b = 0 then Inr d else query b d)"

definition logExclusion :: "reason \<Rightarrow> row \<Rightarrow> 'db import_state \<Rightarrow> 'db import_state" where
  "logExclusion rs raw st = st\<lparr>exclusions := exclusions st @ [(rs, raw)]\<rparr>"

text \<open>
  The statements run for one row. They are the body of the \<open>data\<close> handler of
  \<open>importFromCsv\<close> and, after \<open>rowFromParquetRecord\<close>, of the \<open>while\<close> loop of
  \<open>importFromParquet\<close>.
\<close>

definition processRow ::
  "date_api \<Rightarrow> zone_map option \<Rightarrow> (trip list \<Rightarrow> 'db \<Rightarrow> 'e + 'db) \<Rightarrow> 'db import_state \<Rightarrow> row
     \<Rightarrow> 'e import_error + 'db import_state" where
  "processRow D zoneMap query st0 r =
     (let st = st0\<lparr>processed := processed st0 + 1\<rparr> in
      case isValidTrip D zoneMap r of
        Inl rs \<Rightarrow>
          (let st' = st\<lparr>invalid := invalid st + 1\<rparr>
           in Inr (if invalid st' \<le> 5000 then logExclusion rs r st' else st'))
      | Inr c \<Rightarrow>
          (case enrich D zoneMap r c of
             Inl e \<Rightarrow> Inl (Thrown e)
           | Inr t \<Rightarrow>
               (let st' = st\<lparr>batch := batch st @ [t], valid := valid st + 1\<rparr> in
                if length (batch st') \<ge> BATCH_SIZE then
                  (case insertBatch query (db st') (batch st') of
                     Inl e \<Rightarrow> Inl (QueryFailed e)
                   | Inr d \<Rightarrow> Inr (st'\<lparr>db := d, batch := []\<rparr>))
                else Inr st')))"

definition initialState :: "'db \<Rightarrow> 'db import_state" where
  "initialState d = \<lparr>processed = 0, valid = 0, invalid = 0, batch = [], db = d, exclusions = []\<rparr>"

definition finish ::
  "(trip list \<Rightarrow> 'db \<Rightarrow> 'e + 'db) \<Rightarrow> 'db import_state
     \<Rightarrow> 'e import_error + import_stats \<times> 'db \<times> (reason \<times> row) list" where
  \<comment> \<open>the flush of the last batch and the statistics returned\<close>
  "finish query st =
     (case (if length (batch st) > 0 then insertBatch query (db st) (batch st) else Inr (db st)) of
        Inl e \<Rightarrow> Inl (QueryFailed e)
      | Inr d \<Rightarrow> Inr (\<lparr>stat_processed = processed st, stat_valid = valid st,
                        stat_invalid = invalid st\<rparr>, d, exclusions st))"

text \<open>
  \<open>importFromCsv\<close>: the rows are the \<open>data\<close> events of the parser in order, followed by
  \<open>end\<close>. The handler is run to its end for each row; it updates the three counters and
  \<open>batch\<close> before its only \<open>await\<close>.
\<close>

fun csvEvents ::
  "date_api \<Rightarrow> zone_map option \<Rightarrow> (trip list \<Rightarrow> 'db \<Rightarrow> 'e + 'db) \<Rightarrow> 'db import_state \<Rightarrow> row list
     \<Rightarrow> 'e import_error + 'db import_state" where
  "csvEvents D zoneMap query st [] = Inr st"
| "csvEvents D zoneMap query st (r # rows) =
     (case processRow D zoneMap query st r of
        Inl e \<Rightarrow> Inl e
      | Inr st' \<Rightarrow> csvEvents D zoneMap query st' rows)"

definition importFromCsv ::
  "date_api \<Rightarrow> zone_map option \<Rightarrow> (trip list \<Rightarrow> 'db \<Rightarrow> 'e + 'db) \<Rightarrow> 'db \<Rightarrow> row list
     \<Rightarrow> 'e import_error + import_stats \<times> 'db \<times> (reason \<times> row) list" where
  "importFromCsv D zoneMap query d rows =
     (case csvEvents D zoneMap query (initialState d) rows of
        Inl e \<Rightarrow> Inl e
      | Inr st \<Rightarrow> finish query st)"

text \<open>
  A record read from a Parquet file: its two time columns, and the other columns by name.
  A time column is absent (\<open>PqNull\<close>) or a value \<open>v\<close> given by the time value of
  \<open>new Date(v)\<close>, \<open>None\<close> for the invalid date, on which \<open>toISOString\<close> throws a
  \<open>RangeError\<close>.
\<close>

datatype pq_time = PqNull | PqDate "int option"

record pq_record =
  pq_pickup :: pq_time
  pq_dropoff :: pq_time
  pq_columns :: row

fun replaceT :: "string \<Rightarrow> string" where
  \<comment> \<open>\<open>s.replace('T', ' ')\<close>: the first \<open>T\<close> only\<close>
  "replaceT [] = []"
| "replaceT (c # s) = (if c = CHR ''T'' then CHR '' '' # s else c # replaceT s)"

definition timeColumn :: "date_api \<Rightarrow> pq_time \<Rightarrow> js_error + string" where
  "timeColumn D t =
     (case t of
        PqNull \<Rightarrow> Inr []
      | PqDate None \<Rightarrow> Inl RangeError
      | PqDate (Some ms) \<Rightarrow> Inr (take 19 (replaceT (Date_toISOString D ms))))"

definition passedColumns :: "string list" where
  "passedColumns = [''VendorID'', ''passenger_count'', ''trip_distance'', ''RatecodeID'',
     ''PULocationID'', ''DOLocationID'', ''payment_type'', ''fare_amount'', ''extra'',
     ''mta_tax'', ''tip_amount'', ''tolls_amount'', ''improvement_surcharge'', ''total_amount'',
     ''congestion_surcharge'']"

definition rowFromParquetRecord :: "date_api \<Rightarrow> pq_record \<Rightarrow> js_error + row" where
  "rowFromParquetRecord D rec =
     (case timeColumn D (pq_pickup rec) of
        Inl e \<Rightarrow> Inl e
      | Inr p \<Rightarrow>
          (case timeColumn D (pq_dropoff rec) of
             Inl e \<Rightarrow> Inl e
           | Inr d \<Rightarrow>
               Inr (\<lambda>k. if k = ''tpep_pickup_datetime'' then Some p
                        else if k = ''tpep_dropoff_datetime'' then Some d
                        else if k = ''store_and_fwd_flag''
                          then Some (case pq_columns rec k of None \<Rightarrow> [] | Some v \<Rightarrow> v)
                        else if k \<in> set passedColumns then pq_columns rec k
                        else None)))"

fun parquetLoop ::
  "date_api \<Rightarrow> zone_map option \<Rightarrow> (trip list \<Rightarrow> 'db \<Rightarrow> 'e + 'db) \<Rightarrow> 'db import_state
     \<Rightarrow> pq_record list \<Rightarrow> 'e import_error + 'db import_state" where
  "parquetLoop D zoneMap query st [] = Inr st"
| "parquetLoop D zoneMap query st (rec # recs) =
     (case rowFromParquetRecord D rec of
        Inl e \<Rightarrow> Inl (Thrown e)
      | Inr r \<Rightarrow>
          (case processRow D zoneMap query st r of
             Inl e \<Rightarrow> Inl e
           | Inr st' \<Rightarrow> parquetLoop D zoneMap query st' recs))"

definition importFromParquet ::
  "date_api \<Rightarrow> zone_map option \<Rightarrow> (trip list \<Rightarrow> 'db \<Rightarrow> 'e + 'db) \<Rightarrow> 'db \<Rightarrow> pq_record list
     \<Rightarrow> 'e import_error + import_stats \<times> 'db \<times> (reason \<times> row) list" where
  "importFromParquet D zoneMap query d recs =
     (case parquetLoop D zoneMap query (initialState d) recs of
        Inl e \<Rightarrow> Inl e
      | Inr st \<Rightarrow> finish query st)"

section \<open>scripts/importZones.js\<close>

text \<open>
  The \<open>zones\<close> table is the list of its rows. The statement of \<open>loadZonesFromLookup\<close>,
  \<open>INSERT ... ON CONFLICT (location_id) DO UPDATE SET borough, zone, service_zone\<close>,
  fails on a value that does not fit its column (\<open>INTEGER\<close>, \<open>VARCHAR(50)\<close>,
  \<open>VARCHAR(255)\<close>, \<open>VARCHAR(50)\<close>); it updates the row that has the key if there is one
  and leaves its centroid alone; otherwise it adds a row without centroid.
\<close>

datatype db_error = IntegerOutOfRange | ValueTooLong

definition upsertZone ::
  "int \<Rightarrow> string \<Rightarrow> string \<Rightarrow> string \<Rightarrow> zone_row list \<Rightarrow> db_error + zone_row list" where
  "upsertZone locId b z s t =
     (if locId < - 2147483648 \<or> 2147483647 < locId then Inl IntegerOutOfRange
      else if 50 < length b \<or> 255 < length z \<or> 50 < length s then Inl ValueTooLong
      else if locId \<in> set (map location_id t)
      then Inr (map (\<lambda>r. if location_id r = locId
                          then r\<lparr>borough := Some b, zone := Some z, service_zone := Some s\<rparr>
                          else r) t)
      else Inr (t @ [\<lparr>borough = Some b, zone = Some z, service_zone = Some s,
                      location_id = locId, centroid_lat = None, centroid_lon = None\<rparr>]))"

definition toString :: "jsval \<Rightarrow> string" where
  \<comment> \<open>the string that \<open>parseInt\<close> reads from its argument\<close>
  "toString v = (case v of None \<Rightarrow> ''undefined'' | Some s \<Rightarrow> s)"

definition orEmpty :: "jsval \<Rightarrow> string" where
  \<comment> \<open>\<open>val || ''\<close>\<close>
  "orEmpty v = (case v of None \<Rightarrow> [] | Some s \<Rightarrow> s)"

fun upsertRows :: "row list \<Rightarrow> zone_row list \<Rightarrow> db_error + zone_row list" where
  \<comment> \<open>the \<open>for\<close> loop over the rows read from the lookup file\<close>
  "upsertRows [] t = Inr t"
| "upsertRows (r # rows) t =
     (case parseInt (toString (r ''LocationID'')) of
        None \<Rightarrow> upsertRows rows t
      | Some locId \<Rightarrow>
          (case upsertZone locId (trim (orEmpty (r ''Borough''))) (trim (orEmpty (r ''Zone'')))
                  (trim (orEmpty (r ''service_zone''))) t of
             Inl e \<Rightarrow> Inl e
           | Inr t' \<Rightarrow> upsertRows rows t'))"

definition loadZonesFromLookup ::
  "row list \<Rightarrow> zone_row list \<Rightarrow> db_error + zone_row list \<times> nat" where
  \<comment> \<open>the new table and the number returned, \<open>rows.length\<close>\<close>
  "loadZonesFromLookup rows t =
     (case upsertRows rows t of
        Inl e \<Rightarrow> Inl e
      | Inr t' \<Rightarrow> Inr (t', length rows))"

section \<open>TripClusterer\<close>

text \<open>
  A point has the fields \<open>lat\<close>, \<open>lon\<close> and \<open>duration\<close> that the clusterer reads, and
  any other attributes. A field holds the number that \<open>parseFloat\<close> reads from it; \<open>None\<close> is
  \<open>NaN\<close>, for a field that is missing or not numeric. A centroid is either the copy
  \<open>{ ...point }\<close> of a point, of which only the three fields are ever read, or the object
  \<open>{ lat, lon, duration }\<close> of three averages.

  \<open>Math.random\<close> is the sequence \<open>rng\<close> of the numbers it returns, read at a position
  that each call advances.
\<close>

record centroid =
  lat :: "real option"
  lon :: "real option"
  duration :: "real option"

record 'a point = centroid +
  attrs :: 'a

definition orZero :: "real option \<Rightarrow> real" where
  \<comment> \<open>\<open>parseFloat(x) || 0\<close>\<close>
  "orZero v = (case v of None \<Rightarrow> 0 | Some x \<Rightarrow> x)"

text \<open>
  A distance is a real number or \<open>Infinity\<close>, which \<open>calculateDistance\<close> returns when
  an argument is missing (\<open>None\<close>) and \<open>Math.min\<close> returns for no arguments.
\<close>

datatype distance = Infinity | Finite real

definition calculateDistance ::
  "'a centroid_scheme option \<Rightarrow> 'b centroid_scheme option \<Rightarrow> distance" where
  "calculateDistance point1 point2 =
     (case (point1, point2) of
        (Some p1, Some p2) \<Rightarrow>
          (let lat1 = orZero (lat p1);
               lat2 = orZero (lat p2);
               lon1 = orZero (lon p1);
               lon2 = orZero (lon p2);
               dur1 = orZero (duration p1);
               dur2 = orZero (duration p2);
               latDiff = lat1 - lat2;
               lonDiff = lon1 - lon2;
               durationDiff = (dur1 - dur2) / 1000
           in Finite (sqrt (latDiff * latDiff + lonDiff * lonDiff + durationDiff * durationDiff)))
      | _ \<Rightarrow> Infinity)"

definition minimum :: "distance \<Rightarrow> distance \<Rightarrow> distance" where
  "minimum a b =
     (case (a, b) of
        (Finite x, Finite y) \<Rightarrow> Finite (min x y)
      | (Finite x, Infinity) \<Rightarrow> Finite x
      | (Infinity, _) \<Rightarrow> b)"

definition below :: "distance \<Rightarrow> real \<Rightarrow> bool" where
  \<comment> \<open>\<open>d < x\<close>\<close>
  "below d x = (case d of Infinity \<Rightarrow> False | Finite v \<Rightarrow> v < x)"

definition randomIndex :: "(nat \<Rightarrow> real) \<Rightarrow> nat \<Rightarrow> nat \<Rightarrow> int" where
  \<comment> \<open>\<open>Math.floor(Math.random() * data.length)\<close>\<close>
  "randomIndex rng pos n = \<lfloor>rng pos * real n\<rfloor>"

definition copyPoint :: "'a point list \<Rightarrow> int \<Rightarrow> centroid" where
  \<comment> \<open>\<open>{ ...data[i] }\<close>, the empty object when \<open>data[i]\<close> is \<open>undefined\<close>\<close>
  "copyPoint data i =
     (if 0 \<le> i \<and> i < int (length data) then centroid.truncate (data ! nat i)
      else \<lparr>lat = None, lon = None, duration = None\<rparr>)"

partial_function (option) drawUnused ::
  "(nat \<Rightarrow> real) \<Rightarrow> nat \<Rightarrow> nat \<Rightarrow> int list \<Rightarrow> (int \<times> nat) option" where
  \<comment> \<open>the \<open>do ... while (usedIndices.has(randomIndex))\<close> loop\<close>
  "drawUnused rng n pos usedIndices =
     (let i = randomIndex rng pos n
      in if i \<in> set usedIndices then drawUnused rng n (Suc pos) usedIndices
         else Some (i, Suc pos))"

fun initLoop ::
  "(nat \<Rightarrow> real) \<Rightarrow> 'a point list \<Rightarrow> nat \<Rightarrow> nat \<Rightarrow> int list \<Rightarrow> centroid list
     \<Rightarrow> (centroid list \<times> nat) option" where
  \<comment> \<open>the \<open>for\<close> loop, by the number of rounds left\<close>
  "initLoop rng data 0 pos usedIndices centroids = Some (centroids, pos)"
| "initLoop rng data (Suc j) pos usedIndices centroids =
     (case drawUnused rng (length data) pos usedIndices of
        None \<Rightarrow> None
      | Some (i, pos') \<Rightarrow>
          initLoop rng data j pos' (usedIndices @ [i]) (centroids @ [copyPoint data i]))"

definition initializeCentroids ::
  "(nat \<Rightarrow> real) \<Rightarrow> nat \<Rightarrow> 'a point list \<Rightarrow> int \<Rightarrow> (centroid list \<times> nat) option" where
  \<comment> \<open>the centroids and the position of \<open>rng\<close> reached; \<open>None\<close> when the loop never ends\<close>
  "initializeCentroids rng pos data k = initLoop rng data (nat k) pos [] []"

fun Math_min :: "distance list \<Rightarrow> distance" where
  \<comment> \<open>\<open>Math.min(...xs)\<close>\<close>
  "Math_min [] = Infinity"
| "Math_min (x # xs) = minimum x (Math_min xs)"

fun indexOf :: "distance list \<Rightarrow> distance \<Rightarrow> int" where
  "indexOf [] v = - 1"
| "indexOf (x # xs) v =
     (if x = v then 0 else (let i = indexOf xs v in if i < 0 then - 1 else i + 1))"

definition nearest :: "centroid list \<Rightarrow> 'a point \<Rightarrow> int" where
  \<comment> \<open>\<open>nearestIndex\<close>\<close>
  "nearest centroids p =
     (let distances = map (\<lambda>centroid. calculateDistance (Some p) (Some centroid)) centroids
      in indexOf distances (Math_min distances))"

definition assign :: "centroid list \<Rightarrow> 'a point list list \<Rightarrow> 'a point \<Rightarrow> 'a point list list" where
  \<comment> \<open>the body of \<open>data.forEach\<close>\<close>
  "assign centroids clusters p =
     (let nearestIndex = nearest centroids p
      in if nearestIndex \<ge> 0 \<and> nearestIndex < int (length clusters)
         then clusters[nat nearestIndex := clusters ! nat nearestIndex @ [p]]
         else clusters)"

definition assignAll :: "centroid list \<Rightarrow> nat \<Rightarrow> 'a point list \<Rightarrow> 'a point list list" where
  \<comment> \<open>\<open>Array(k).fill().map(() => [])\<close>, then \<open>data.forEach\<close>\<close>
  "assignAll centroids k data = foldl (assign centroids) (replicate k []) data"

definition average :: "('a point \<Rightarrow> real option) \<Rightarrow> 'a point list \<Rightarrow> real option" where
  \<comment> \<open>\<open>cluster.reduce((sum, p) => sum + parseFloat(p.f), 0) / cluster.length\<close>\<close>
  "average f cluster =
     (case foldl (\<lambda>sum p. case (sum, f p) of (Some s, Some v) \<Rightarrow> Some (s + v) | _ \<Rightarrow> None)
             (Some 0) cluster of
        None \<Rightarrow> None
      | Some s \<Rightarrow> Some (s / real (length cluster)))"

fun newCentroids ::
  "(nat \<Rightarrow> real) \<Rightarrow> nat \<Rightarrow> 'a point list \<Rightarrow> 'a point list list \<Rightarrow> centroid list \<times> nat" where
  \<comment> \<open>\<open>clusters.map\<close>, with the position of \<open>rng\<close> reached\<close>
  "newCentroids rng pos data [] = ([], pos)"
| "newCentroids rng pos data (cluster # rest) =
     (if length cluster = 0 then
        (let i = randomIndex rng pos (length data);
             (cs, pos') = newCentroids rng (Suc pos) data rest
         in (copyPoint data i # cs, pos'))
      else
        (let avgLat = average lat cluster;
             avgLon = average lon cluster;
             avgDuration = average duration cluster;
             (cs, pos') = newCentroids rng pos data rest
         in (\<lparr>lat = avgLat, lon = avgLon, duration = avgDuration\<rparr> # cs, pos')))"

definition element :: "'a list \<Rightarrow> nat \<Rightarrow> 'a option" where
  \<comment> \<open>\<open>xs[i]\<close>; \<open>None\<close> is \<open>undefined\<close>\<close>
  "element xs i = (if i < length xs then Some (xs ! i) else None)"

definition converged :: "centroid list \<Rightarrow> centroid list \<Rightarrow> bool" where
  \<comment> \<open>\<open>centroids.every((centroid, i) => ... newCentroids[i] ...)\<close>\<close>
  "converged centroids new =
     list_all (\<lambda>i. below (calculateDistance (element centroids i) (element new i)) 0.001)
       [0 ..< length centroids]"

fun iterations ::
  "(nat \<Rightarrow> real) \<Rightarrow> 'a point list \<Rightarrow> nat \<Rightarrow> nat \<Rightarrow> nat \<Rightarrow> centroid list \<Rightarrow> 'a point list list
     \<Rightarrow> 'a point list list" where
  \<comment> \<open>the \<open>for\<close> loop of \<open>kMeans\<close>, by the number of iterations left; the result is
      \<open>clusters\<close> at its exit\<close>
  "iterations rng data k 0 pos centroids clusters = clusters"
| "iterations rng data k (Suc j) pos centroids clusters =
     (let clusters' = assignAll centroids k data;
          (new, pos') = newCentroids rng pos data clusters'
      in if converged centroids new then clusters'
         else iterations rng data k j pos' new clusters')"

definition kMeans ::
  "(nat \<Rightarrow> real) \<Rightarrow> 'a point list \<Rightarrow> int \<Rightarrow> int \<Rightarrow> 'a point list list option" where
  \<comment> \<open>\<open>None\<close>: \<open>initializeCentroids\<close> does not return\<close>
  "kMeans rng data k maxIterations =
     (if length data = 0 then Some []
      else if k \<le> 0 \<or> k > int (length data) then Some [data]
      else
        (case initializeCentroids rng 0 data k of
           None \<Rightarrow> None
         | Some (centroids, pos) \<Rightarrow>
             Some (filter (\<lambda>cluster. length cluster > 0)
                     (iterations rng data (nat k) (nat maxIterations) pos centroids []))))"

section \<open>Terms of the specification\<close>

text \<open>
  The validator as the specification words it: seven checks, each with its reason code, in
  a fixed order. A check is stated on the row alone; the duration is that of two time stamps
  that parse.
\<close>

definition checkOrder :: "reason list" where
  "checkOrder = [invalid_or_unknown_zone, invalid_timestamp, duration_out_of_range,
     invalid_passenger_count, trip_distance_out_of_range, fare_out_of_range,
     total_amount_out_of_range]"

definition zonesResolve :: "zone_map option \<Rightarrow> row \<Rightarrow> bool" where
  "zonesResolve zoneMap r =
     (case zoneMap of
        None \<Rightarrow> False
      | Some m \<Rightarrow> has m (parseIntStrict (r ''PULocationID'') NaN)
                 \<and> has m (parseIntStrict (r ''DOLocationID'') NaN))"

definition roundedDuration :: "date_api \<Rightarrow> row \<Rightarrow> int option" where
  \<comment> \<open>dropoff - pickup in seconds, rounded; \<open>None\<close> when a time stamp does not parse\<close>
  "roundedDuration D r =
     (case (parseTimestamp D (r ''tpep_pickup_datetime''),
            parseTimestamp D (r ''tpep_dropoff_datetime'')) of
        (Some p, Some d) \<Rightarrow> Some (Math_round (real_of_int (d - p) / 1000))
      | _ \<Rightarrow> None)"

fun checkFails :: "date_api \<Rightarrow> zone_map option \<Rightarrow> row \<Rightarrow> reason \<Rightarrow> bool" where
  "checkFails D zoneMap r invalid_or_unknown_zone = (\<not> zonesResolve zoneMap r)"
| "checkFails D zoneMap r invalid_timestamp = (roundedDuration D r = None)"
| "checkFails D zoneMap r duration_out_of_range =
     (case roundedDuration D r of None \<Rightarrow> False | Some s \<Rightarrow> s < 60 \<or> s > 86400)"
| "checkFails D zoneMap r invalid_passenger_count =
     (let p = parseIntStrict (r ''passenger_count'') (IntVal (- 1)) in lt p 0 \<or> gt p 9)"
| "checkFails D zoneMap r trip_distance_out_of_range =
     (let x = parseNum (r ''trip_distance'') (- 1) in x < 0 \<or> x > 500)"
| "checkFails D zoneMap r fare_out_of_range =
     (let x = parseNum (r ''fare_amount'') (- 1) in x < 0 \<or> x > 10000)"
| "checkFails D zoneMap r total_amount_out_of_range =
     (let x = parseNum (r ''total_amount'') (- 1) in x < 0 \<or> x > 10000)"

definition rejection :: "reason + ctx \<Rightarrow> reason option" where
  "rejection res = (case res of Inl rs \<Rightarrow> Some rs | Inr c \<Rightarrow> None)"

definition accepted :: "date_api \<Rightarrow> zone_map option \<Rightarrow> row \<Rightarrow> bool" where
  "accepted D zoneMap r = (case isValidTrip D zoneMap r of Inl rs \<Rightarrow> False | Inr c \<Rightarrow> True)"

definition acceptedRecord :: "date_api \<Rightarrow> zone_map option \<Rightarrow> pq_record \<Rightarrow> bool" where
  "acceptedRecord D zoneMap rec =
     (case rowFromParquetRecord D rec of Inl e \<Rightarrow> False | Inr r \<Rightarrow> accepted D zoneMap r)"

definition countWhere :: "('a \<Rightarrow> bool) \<Rightarrow> 'a list \<Rightarrow> nat" where
  "countWhere P xs = length (filter P xs)"

definition boroughOf :: "zone_map \<Rightarrow> jsint \<Rightarrow> string option" where
  \<comment> \<open>the borough looked up by zone id: empty where the zone is missing\<close>
  "boroughOf m z = (case get m z of None \<Rightarrow> Some [] | Some i \<Rightarrow> borough i)"

definition nonEmpty :: "string option \<Rightarrow> bool" where
  "nonEmpty v = (case v of None \<Rightarrow> False | Some s \<Rightarrow> s \<noteq> [])"

text \<open>
  The loop of \<open>loadZonesFromLookup\<close> seen from the table: the key a lookup row carries,
  whether its values fit the columns, and what one round does to the table and to a row.
\<close>

definition keyOf :: "row \<Rightarrow> int option" where
  "keyOf r = parseInt (toString (r ''LocationID''))"

definition fitsColumns :: "row \<Rightarrow> bool" where
  "fitsColumns r =
     (case keyOf r of
        None \<Rightarrow> True
      | Some k \<Rightarrow> - 2147483648 \<le> k \<and> k \<le> 2147483647
          \<and> length (trim (orEmpty (r ''Borough''))) \<le> 50
          \<and> length (trim (orEmpty (r ''Zone''))) \<le> 255
          \<and> length (trim (orEmpty (r ''service_zone''))) \<le> 50)"

definition setZone :: "row \<Rightarrow> zone_row \<Rightarrow> zone_row" where
  "setZone r x =
     (if keyOf r = Some (location_id x)
      then x\<lparr>borough := Some (trim (orEmpty (r ''Borough''))),
              zone := Some (trim (orEmpty (r ''Zone''))),
              service_zone := Some (trim (orEmpty (r ''service_zone'')))\<rparr>
      else x)"

definition newZone :: "row \<Rightarrow> zone_row" where
  "newZone r = \<lparr>borough = Some (trim (orEmpty (r ''Borough''))),
      zone = Some (trim (orEmpty (r ''Zone''))),
      service_zone = Some (trim (orEmpty (r ''service_zone''))),
      location_id = the (keyOf r), centroid_lat = None, centroid_lon = None\<rparr>"

definition upsertStep :: "row \<Rightarrow> zone_row list \<Rightarrow> zone_row list" where
  "upsertStep r t =
     (case keyOf r of
        None \<Rightarrow> t
      | Some k \<Rightarrow> if k \<in> set (map location_id t) then map (setZone r) t else t @ [newZone r])"

abbreviation upsertAll :: "row list \<Rightarrow> zone_row list \<Rightarrow> zone_row list" where
  "upsertAll rows t \<equiv> foldl (\<lambda>t r. upsertStep r t) t rows"

abbreviation settleZone :: "row list \<Rightarrow> zone_row \<Rightarrow> zone_row" where
  "settleZone rows x \<equiv> foldl (\<lambda>x r. setZone r x) x rows"

text \<open>
  A source of random numbers is valid when its numbers lie in \<open>[0, 1)\<close>, as those of
  \<open>Math.random\<close> do. In a source where every index recurs, each index of the input is drawn
  again after any position.
\<close>

definition validRandom :: "(nat \<Rightarrow> real) \<Rightarrow> bool" where
  "validRandom rng = (\<forall>j. 0 \<le> rng j \<and> rng j < 1)"

definition everyIndexRecurs :: "(nat \<Rightarrow> real) \<Rightarrow> nat \<Rightarrow> bool" where
  "everyIndexRecurs rng n = (\<forall>i < n. \<forall>p. \<exists>j \<ge> p. randomIndex rng j n = int i)"

definition initialAssignment ::
  "(nat \<Rightarrow> real) \<Rightarrow> 'a point list \<Rightarrow> int \<Rightarrow> 'a point list list option" where
  \<comment> \<open>the non-empty clusters of the points assigned to their nearest initial centroid\<close>
  "initialAssignment rng data k =
     (case initializeCentroids rng 0 data k of
        None \<Rightarrow> None
      | Some (centroids, pos) \<Rightarrow>
          Some (filter (\<lambda>cluster. length cluster > 0) (assignAll centroids (nat k) data)))"

section \<open>Example inputs\<close>

text \<open>
  A \<open>Date\<close> that knows the three instants of the examples, in both spellings, at UTC.
\<close>

definition exampleDate :: date_api where
  "exampleDate =
     \<lparr>Date_parse = (\<lambda>s. if s = ''2024-01-01T08:00:00'' \<or> s = ''2024-01-01 08:00:00''
                            then Some 1704096000000
                          else if s = ''2024-01-01T08:00:30'' then Some 1704096030000
                          else if s = ''2024-01-01T08:20:00'' \<or> s = ''2024-01-01 08:20:00''
                            then Some 1704097200000
                          else None),
      Date_getHours = (\<lambda>t. (t div 3600000) mod 24),
      Date_getDay = (\<lambda>t. (t div 86400000 + 4) mod 7),
      Date_getMonth = (\<lambda>t. 0),
      Date_toISOString = (\<lambda>t. if t = 1704096000000 then ''2024-01-01T08:00:00.000Z''
                               else if t = 1704097200000 then ''2024-01-01T08:20:00.000Z''
                               else [])\<rparr>"

definition exampleZones :: zone_map where
  "exampleZones =
     [1 \<mapsto> \<lparr>borough = Some ''Manhattan'', zone = Some ''Alphabet City'',
              service_zone = Some ''Yellow Zone''\<rparr>,
      2 \<mapsto> \<lparr>borough = Some ''Queens'', zone = Some ''Astoria'',
              service_zone = Some ''Boro Zone''\<rparr>]"

definition exampleRow :: row where
  \<comment> \<open>the scenario of the specification: twenty minutes, five miles\<close>
  "exampleRow =
     [''PULocationID'' \<mapsto> ''1'', ''DOLocationID'' \<mapsto> ''2'',
      ''tpep_pickup_datetime'' \<mapsto> ''2024-01-01T08:00:00'',
      ''tpep_dropoff_datetime'' \<mapsto> ''2024-01-01T08:20:00'',
      ''passenger_count'' \<mapsto> ''1'', ''trip_distance'' \<mapsto> ''5'',
      ''fare_amount'' \<mapsto> ''20'', ''total_amount'' \<mapsto> ''25'', ''tip_amount'' \<mapsto> ''5'']"

definition exampleCtx :: ctx where
  "exampleCtx =
     \<lparr>durationSec = 1200, tripDistance = 5, fareAmount = 20, totalAmount = 25,
      pu = IntVal 1, doLoc = IntVal 2, pickup = 1704096000000, dropoff = 1704097200000,
      passengers = IntVal 1, row = exampleRow\<rparr>"

definition shortRow :: row where
  \<comment> \<open>dropoff thirty seconds after pickup\<close>
  "shortRow = exampleRow(''tpep_dropoff_datetime'' \<mapsto> ''2024-01-01T08:00:30'')"

definition fastRow :: row where
  \<comment> \<open>five hundred miles in twenty minutes\<close>
  "fastRow = exampleRow(''trip_distance'' \<mapsto> ''500'')"

definition fastCtx :: ctx where
  "fastCtx = exampleCtx\<lparr>tripDistance := 500, row := fastRow\<rparr>"

definition unknownZoneRow :: row where
  "unknownZoneRow = exampleRow(''PULocationID'' \<mapsto> ''999'')"

definition exampleRecord :: pq_record where
  "exampleRecord =
     \<lparr>pq_pickup = PqDate (Some 1704096000000), pq_dropoff = PqDate (Some 1704097200000),
      pq_columns = exampleRow\<rparr>"

definition unknownZoneRecord :: pq_record where
  "unknownZoneRecord = exampleRecord\<lparr>pq_columns := unknownZoneRow\<rparr>"

definition countingStore :: "trip list \<Rightarrow> nat \<Rightarrow> unit + nat" where
  \<comment> \<open>a store that counts the rows it has been given\<close>
  "countingStore b d = Inr (d + length b)"

definition lookupRows :: "row list" where
  "lookupRows =
     [[''LocationID'' \<mapsto> ''1'', ''Borough'' \<mapsto> ''EWR'', ''Zone'' \<mapsto> ''Newark Airport'',
       ''service_zone'' \<mapsto> ''EWR''],
      [''LocationID'' \<mapsto> ''abc'', ''Borough'' \<mapsto> ''Queens'', ''Zone'' \<mapsto> ''Astoria'',
       ''service_zone'' \<mapsto> ''Boro Zone'']]"

definition loadedZones :: "zone_row list" where
  "loadedZones =
     [\<lparr>borough = Some ''EWR'', zone = Some ''Newark Airport'', service_zone = Some ''EWR'',
       location_id = 1, centroid_lat = None, centroid_lon = None\<rparr>]"

definition pointA :: "string point" where
  "pointA = \<lparr>lat = Some 0, lon = Some 0, duration = Some 0, attrs = ''A''\<rparr>"

definition pointB :: "string point" where
  "pointB = \<lparr>lat = Some 1, lon = Some 0, duration = Some 0, attrs = ''B''\<rparr>"

definition rngZero :: "nat \<Rightarrow> real" where
  \<comment> \<open>the source that always returns 0\<close>
  "rngZero j = 0"

definition rngHalf :: "nat \<Rightarrow> real" where
  \<comment> \<open>0 first, then always 0.5\<close>
  "rngHalf j = (if j = 0 then 0 else 1 / 2)"

definition rngAlternating :: "nat \<Rightarrow> real" where
  \<comment> \<open>0, 0.5, 0, 0.5, ...\<close>
  "rngAlternating j = (if even j then 0 else 1 / 2)"

definition exampleStats :: import_stats where
  "exampleStats = \<lparr>stat_processed = 2, stat_valid = 1, stat_invalid = 1\<rparr>"

definition staleZones :: "zone_row list" where
  \<comment> \<open>a table from an earlier run, with a centroid on zone 1\<close>
  "staleZones =
     [\<lparr>borough = Some ''Newark'', zone = Some ''Airport'', service_zone = Some ''EWR'',
       location_id = 1, centroid_lat = Some 40.69, centroid_lon = Some (- 74.17)\<rparr>,
      \<lparr>borough = Some ''Queens'', zone = Some ''Astoria'', service_zone = Some ''Boro Zone'',
       location_id = 7, centroid_lat = None, centroid_lon = None\<rparr>]"

definition refreshedZones :: "zone_row list" where
  "refreshedZones =
     [\<lparr>borough = Some ''EWR'', zone = Some ''Newark Airport'', service_zone = Some ''EWR'',
       location_id = 1, centroid_lat = Some 40.69, centroid_lon = Some (- 74.17)\<rparr>,
      \<lparr>borough = Some ''Queens'', zone = Some ''Astoria'', service_zone = Some ''Boro Zone'',
       location_id = 7, centroid_lat = None, centroid_lon = None\<rparr>]"

section \<open>Properties\<close>

subsection \<open>Evaluating the built-ins\<close>

lemmas js_eval =
  parseIntStrict_def parseInt_def parseNum_def parseFloat_def splitSign_def removeCommas_def
  isDigit_def isWhiteSpace_def digitsVal_def digitVal_def exponentPart_def scale10_def
  parseTimestamp_def Math_round_def has_def get_def lt_def gt_def trim_def toString_def
  orEmpty_def truthy_def Let_def

lemmas example_defs =
  exampleDate_def exampleZones_def exampleRow_def shortRow_def fastRow_def unknownZoneRow_def

lemma isValidTrip_exampleRow:
  "isValidTrip exampleDate (Some exampleZones) exampleRow = Inr exampleCtx"
  by (simp add: isValidTrip_def exampleCtx_def example_defs js_eval)

lemma isValidTrip_fastRow:
  "isValidTrip exampleDate (Some exampleZones) fastRow = Inr fastCtx"
  by (simp add: isValidTrip_def fastCtx_def exampleCtx_def example_defs js_eval)

lemma isValidTrip_unknownZoneRow:
  "isValidTrip exampleDate (Some exampleZones) unknownZoneRow = Inl invalid_or_unknown_zone"
  by (simp add: isValidTrip_def example_defs js_eval)

subsection \<open>The validator\<close>

lemma isValidTrip_find:
  "rejection (isValidTrip D zoneMap r) = find (checkFails D zoneMap r) checkOrder"
proof (cases "zonesResolve zoneMap r")
  case False
  then show ?thesis
    by (cases zoneMap)
       (simp_all add: rejection_def isValidTrip_def checkOrder_def zonesResolve_def Let_def)
next
  case True
  then obtain m where m: "zoneMap = Some m"
    "has m (parseIntStrict (r ''PULocationID'') NaN)"
    "has m (parseIntStrict (r ''DOLocationID'') NaN)"
    by (auto simp add: zonesResolve_def split: option.splits)
  show ?thesis
  proof (cases "roundedDuration D r")
    case None
    then have "parseTimestamp D (r ''tpep_pickup_datetime'') = None
      \<or> parseTimestamp D (r ''tpep_dropoff_datetime'') = None"
      by (auto simp add: roundedDuration_def split: option.splits)
    with None True m show ?thesis
      by (simp add: rejection_def isValidTrip_def checkOrder_def Let_def)
  next
    case (Some s)
    then obtain p q where pq: "parseTimestamp D (r ''tpep_pickup_datetime'') = Some p"
      "parseTimestamp D (r ''tpep_dropoff_datetime'') = Some q"
      "s = Math_round (real_of_int (q - p) / 1000)"
      by (auto simp add: roundedDuration_def split: option.splits)
    with Some True m show ?thesis
      by (simp add: rejection_def isValidTrip_def checkOrder_def Let_def)
  qed
qed

text \<open>
  C1. \<open>isValidTrip\<close> rejects a row with the reason of the first check that fails, in the
  order zone, time stamp, duration, passenger count, trip distance, fare, total amount, and
  accepts it when none fails. In particular a row whose zones resolve, whose time stamps
  parse and whose rounded duration in seconds is outside \<open>[60, 86400]\<close> is rejected with
  \<open>duration_out_of_range\<close>.
\<close>

theorem isValidTrip_first_failing_check:
  "rejection (isValidTrip D zoneMap r) = find (checkFails D zoneMap r) checkOrder
   \<and> (zonesResolve zoneMap r \<longrightarrow>
        (\<forall>s. roundedDuration D r = Some s \<and> (s < 60 \<or> s > 86400)
           \<longrightarrow> isValidTrip D zoneMap r = Inl duration_out_of_range))"
proof (intro conjI impI allI)
  show "rejection (isValidTrip D zoneMap r) = find (checkFails D zoneMap r) checkOrder"
    by (rule isValidTrip_find)
next
  fix s
  assume z: "zonesResolve zoneMap r"
    and d: "roundedDuration D r = Some s \<and> (s < 60 \<or> s > 86400)"
  from z obtain m where m: "zoneMap = Some m"
    "has m (parseIntStrict (r ''PULocationID'') NaN)"
    "has m (parseIntStrict (r ''DOLocationID'') NaN)"
    by (auto simp add: zonesResolve_def split: option.splits)
  from d obtain p q where pq: "parseTimestamp D (r ''tpep_pickup_datetime'') = Some p"
    "parseTimestamp D (r ''tpep_dropoff_datetime'') = Some q"
    "s = Math_round (real_of_int (q - p) / 1000)"
    by (auto simp add: roundedDuration_def split: option.splits)
  from d pq m show "isValidTrip D zoneMap r = Inl duration_out_of_range"
    by (auto simp add: isValidTrip_def Let_def)
qed

theorem isValidTrip_first_failing_check_witness:
  "zonesResolve (Some exampleZones) shortRow
   \<and> roundedDuration exampleDate shortRow = Some 30
   \<and> isValidTrip exampleDate (Some exampleZones) shortRow = Inl duration_out_of_range
   \<and> find (checkFails exampleDate (Some exampleZones) shortRow) checkOrder
       = Some duration_out_of_range"
proof -
  have z: "zonesResolve (Some exampleZones) shortRow"
    by (simp add: zonesResolve_def example_defs js_eval)
  have d: "roundedDuration exampleDate shortRow = Some 30"
    by (simp add: roundedDuration_def example_defs js_eval)
  note t = isValidTrip_first_failing_check[of exampleDate "Some exampleZones" shortRow]
  from t have a: "rejection (isValidTrip exampleDate (Some exampleZones) shortRow)
      = find (checkFails exampleDate (Some exampleZones) shortRow) checkOrder"
    by (rule conjunct1)
  have b: "isValidTrip exampleDate (Some exampleZones) shortRow = Inl duration_out_of_range"
    by (rule t[THEN conjunct2, rule_format, OF z, of 30]) (simp add: d)
  note c = a[unfolded b rejection_def sum.case, symmetric]
  from z d b c show ?thesis by (intro conjI)
qed

subsection \<open>The enricher\<close>

lemma isValidTrip_accepted:
  assumes "isValidTrip D zoneMap r = Inr c"
  shows "\<exists>m a b. zoneMap = Some m \<and> pu c = IntVal a \<and> doLoc c = IntVal b
           \<and> m a \<noteq> None \<and> m b \<noteq> None
           \<and> 60 \<le> durationSec c \<and> durationSec c \<le> 86400
           \<and> 0 \<le> tripDistance c \<and> tripDistance c \<le> 500
           \<and> 0 \<le> fareAmount c \<and> fareAmount c \<le> 10000
           \<and> 0 \<le> totalAmount c \<and> totalAmount c \<le> 10000"
proof (cases zoneMap)
  case None
  with assms show ?thesis by (simp add: isValidTrip_def Let_def)
next
  case (Some m)
  let ?pu = "parseIntStrict (r ''PULocationID'') NaN"
  let ?do = "parseIntStrict (r ''DOLocationID'') NaN"
  from assms Some have h: "has m ?pu" "has m ?do"
    by (auto simp add: isValidTrip_def Let_def split: if_splits)
  then obtain a b where ab: "?pu = IntVal a" "?do = IntVal b" "m a \<noteq> None" "m b \<noteq> None"
    by (auto simp add: has_def split: jsint.splits)
  from assms Some h show ?thesis
    by (simp add: isValidTrip_def Let_def ab[symmetric] split: if_splits) (use ab in auto)
qed

lemma enrich_speed_capped:
  "enrich D zoneMap r c = Inr t \<Longrightarrow> speed_kmh t \<le> 200"
  by (cases zoneMap) (auto simp add: enrich_def Let_def)

text \<open>
  C2. For a row that the validator accepts, \<open>speed_kmh\<close> of the enriched trip is
  \<open>min(200, distance_km / (duration_sec / 3600))\<close> with
  \<open>distance_km = trip_distance * 1.60934\<close>, or 0 if the duration is 0, and it is at most 200.
\<close>

theorem enrich_speed_kmh:
  "isValidTrip D zoneMap r = Inr c \<longrightarrow>
     (\<exists>t. enrich D zoneMap r c = Inr t
        \<and> speed_kmh t =
            (if durationSec c = 0 then 0
             else min 200 (tripDistance c * 1.60934 / (real_of_int (durationSec c) / 3600)))
        \<and> speed_kmh t \<le> 200)"
proof
  assume a: "isValidTrip D zoneMap r = Inr c"
  from isValidTrip_accepted[OF a] obtain m where m: "zoneMap = Some m"
    and d: "60 \<le> durationSec c" by blast
  from d have "real_of_int (durationSec c) / 3600 > 0" "durationSec c \<noteq> 0" by simp_all
  with m show "\<exists>t. enrich D zoneMap r c = Inr t
        \<and> speed_kmh t =
            (if durationSec c = 0 then 0
             else min 200 (tripDistance c * 1.60934 / (real_of_int (durationSec c) / 3600)))
        \<and> speed_kmh t \<le> 200"
    by (simp add: enrich_def Let_def MILES_TO_KM_def)
qed

theorem enrich_speed_kmh_witness:
  "isValidTrip exampleDate (Some exampleZones) fastRow = Inr fastCtx
   \<and> (\<exists>t. enrich exampleDate (Some exampleZones) fastRow fastCtx = Inr t \<and> speed_kmh t = 200)"
proof -
  note a = isValidTrip_fastRow
  from enrich_speed_kmh[of exampleDate "Some exampleZones" fastRow fastCtx, rule_format, OF a]
  obtain t where t: "enrich exampleDate (Some exampleZones) fastRow fastCtx = Inr t"
    "speed_kmh t =
       (if durationSec fastCtx = 0 then 0
        else min 200 (tripDistance fastCtx * 1.60934 / (real_of_int (durationSec fastCtx) / 3600)))"
    by blast
  from t(2) have "speed_kmh t = 200" by (simp add: fastCtx_def exampleCtx_def)
  with a t(1) show ?thesis by blast
qed

text \<open>
  C3. For a row that the validator accepts, the boroughs of the enriched trip are those
  looked up in the zone map by pickup and dropoff zone id, and \<open>trip_type\<close> is
  \<open>Cross Borough\<close> exactly when both are non-empty strings and differ; it is
  \<open>Within Borough\<close> in every other case.
\<close>

theorem enrich_trip_type:
  "isValidTrip D zoneMap r = Inr c \<longrightarrow>
     (\<exists>t m. zoneMap = Some m \<and> enrich D zoneMap r c = Inr t
        \<and> pickup_borough t = boroughOf m (pu c)
        \<and> dropoff_borough t = boroughOf m (doLoc c)
        \<and> (trip_type t = ''Cross Borough'' \<longleftrightarrow>
             nonEmpty (pickup_borough t) \<and> nonEmpty (dropoff_borough t)
             \<and> pickup_borough t \<noteq> dropoff_borough t)
        \<and> (trip_type t \<noteq> ''Cross Borough'' \<longrightarrow> trip_type t = ''Within Borough''))"
proof
  assume a: "isValidTrip D zoneMap r = Inr c"
  from isValidTrip_accepted[OF a] obtain m where m: "zoneMap = Some m" by blast
  have t: "truthy v = nonEmpty v" for v
    by (simp add: truthy_def nonEmpty_def)
  from m show "\<exists>t m. zoneMap = Some m \<and> enrich D zoneMap r c = Inr t
        \<and> pickup_borough t = boroughOf m (pu c)
        \<and> dropoff_borough t = boroughOf m (doLoc c)
        \<and> (trip_type t = ''Cross Borough'' \<longleftrightarrow>
             nonEmpty (pickup_borough t) \<and> nonEmpty (dropoff_borough t)
             \<and> pickup_borough t \<noteq> dropoff_borough t)
        \<and> (trip_type t \<noteq> ''Cross Borough'' \<longrightarrow> trip_type t = ''Within Borough'')"
    by (simp add: enrich_def Let_def boroughOf_def t split: option.splits)
qed

theorem enrich_trip_type_witness:
  "isValidTrip exampleDate (Some exampleZones) exampleRow = Inr exampleCtx
   \<and> (\<exists>t. enrich exampleDate (Some exampleZones) exampleRow exampleCtx = Inr t
        \<and> pickup_borough t = Some ''Manhattan'' \<and> dropoff_borough t = Some ''Queens''
        \<and> trip_type t = ''Cross Borough'')"
proof -
  note a = isValidTrip_exampleRow
  from enrich_trip_type[of exampleDate "Some exampleZones" exampleRow exampleCtx,
      rule_format, OF a]
  obtain t m where m: "Some exampleZones = Some m"
    and t: "enrich exampleDate (Some exampleZones) exampleRow exampleCtx = Inr t"
    "pickup_borough t = boroughOf m (pu exampleCtx)"
    "dropoff_borough t = boroughOf m (doLoc exampleCtx)"
    "trip_type t = ''Cross Borough'' \<longleftrightarrow>
       nonEmpty (pickup_borough t) \<and> nonEmpty (dropoff_borough t)
       \<and> pickup_borough t \<noteq> dropoff_borough t"
    by blast
  from m have m': "m = exampleZones" by simp
  have p: "boroughOf exampleZones (pu exampleCtx) = Some ''Manhattan''"
    by (simp add: boroughOf_def get_def exampleZones_def exampleCtx_def)
  have d: "boroughOf exampleZones (doLoc exampleCtx) = Some ''Queens''"
    by (simp add: boroughOf_def get_def exampleZones_def exampleCtx_def)
  from t(2,3) have b: "pickup_borough t = Some ''Manhattan''" "dropoff_borough t = Some ''Queens''"
    unfolding m' p d by simp_all
  from t(4) have "trip_type t = ''Cross Borough''"
    unfolding b by (simp add: nonEmpty_def)
  with a t(1) b show ?thesis by blast
qed

subsection \<open>The run statistics\<close>

lemma processRow_counts:
  assumes "processRow D zoneMap query st r = Inr st'"
  shows "processed st' = processed st + 1
    \<and> valid st' = valid st + (if accepted D zoneMap r then 1 else 0)
    \<and> invalid st' = invalid st + (if accepted D zoneMap r then 0 else 1)"
  using assms
  by (auto simp add: processRow_def accepted_def logExclusion_def Let_def
      split: sum.splits if_splits)

lemma csvEvents_counts:
  "csvEvents D zoneMap query st rows = Inr st' \<Longrightarrow>
     processed st' = processed st + length rows
     \<and> valid st' = valid st + countWhere (accepted D zoneMap) rows
     \<and> invalid st' = invalid st + countWhere (\<lambda>r. \<not> accepted D zoneMap r) rows"
proof (induction rows arbitrary: st)
  case Nil
  then show ?case by (simp add: countWhere_def)
next
  case (Cons r rows)
  then obtain st1 where s: "processRow D zoneMap query st r = Inr st1"
    "csvEvents D zoneMap query st1 rows = Inr st'"
    by (auto split: sum.splits)
  from processRow_counts[OF s(1)] Cons.IH[OF s(2)] show ?case
    by (simp add: countWhere_def)
qed

lemma parquetLoop_counts:
  "parquetLoop D zoneMap query st recs = Inr st' \<Longrightarrow>
     processed st' = processed st + length recs
     \<and> valid st' = valid st + countWhere (acceptedRecord D zoneMap) recs
     \<and> invalid st' = invalid st + countWhere (\<lambda>rec. \<not> acceptedRecord D zoneMap rec) recs"
proof (induction recs arbitrary: st)
  case Nil
  then show ?case by (simp add: countWhere_def)
next
  case (Cons rec recs)
  then obtain r st1 where s: "rowFromParquetRecord D rec = Inr r"
    "processRow D zoneMap query st r = Inr st1"
    "parquetLoop D zoneMap query st1 recs = Inr st'"
    by (auto split: sum.splits)
  from processRow_counts[OF s(2)] Cons.IH[OF s(3)] s(1) show ?case
    by (simp add: countWhere_def acceptedRecord_def)
qed

lemma finish_stats:
  "finish query st = Inr (s, d, lg) \<Longrightarrow>
     stat_processed s = processed st \<and> stat_valid s = valid st \<and> stat_invalid s = invalid st"
  by (auto simp add: finish_def split: sum.splits)

text \<open>
  C10. The statistics that a completed ingestion returns, from a CSV file or from a Parquet
  file, satisfy \<open>processed = valid + invalid\<close>: \<open>processed\<close> is the number of rows read,
  \<open>valid\<close> the number of those the validator accepts and \<open>invalid\<close> the number of those it
  rejects.
\<close>

theorem import_statistics:
  "(importFromCsv D zoneMap query d rows = Inr (s, d', lg) \<longrightarrow>
      stat_processed s = stat_valid s + stat_invalid s
      \<and> stat_processed s = length rows
      \<and> stat_valid s = countWhere (accepted D zoneMap) rows
      \<and> stat_invalid s = countWhere (\<lambda>r. \<not> accepted D zoneMap r) rows)
   \<and> (importFromParquet D zoneMap query d recs = Inr (s, d', lg) \<longrightarrow>
      stat_processed s = stat_valid s + stat_invalid s
      \<and> stat_processed s = length recs
      \<and> stat_valid s = countWhere (acceptedRecord D zoneMap) recs
      \<and> stat_invalid s = countWhere (\<lambda>rec. \<not> acceptedRecord D zoneMap rec) recs)"
proof (intro conjI impI)
  assume a: "importFromCsv D zoneMap query d rows = Inr (s, d', lg)"
  then obtain st where st: "csvEvents D zoneMap query (initialState d) rows = Inr st"
    "finish query st = Inr (s, d', lg)"
    by (auto simp add: importFromCsv_def split: sum.splits)
  have c: "length rows = countWhere (accepted D zoneMap) rows
      + countWhere (\<lambda>r. \<not> accepted D zoneMap r) rows"
    by (simp add: countWhere_def sum_length_filter_compl)
  from csvEvents_counts[OF st(1)] finish_stats[OF st(2)]
  show "stat_processed s = length rows"
    "stat_valid s = countWhere (accepted D zoneMap) rows"
    "stat_invalid s = countWhere (\<lambda>r. \<not> accepted D zoneMap r) rows"
    by (simp_all add: initialState_def)
  with c show "stat_processed s = stat_valid s + stat_invalid s" by simp
next
  assume a: "importFromParquet D zoneMap query d recs = Inr (s, d', lg)"
  then obtain st where st: "parquetLoop D zoneMap query (initialState d) recs = Inr st"
    "finish query st = Inr (s, d', lg)"
    by (auto simp add: importFromParquet_def split: sum.splits)
  have c: "length recs = countWhere (acceptedRecord D zoneMap) recs
      + countWhere (\<lambda>r. \<not> acceptedRecord D zoneMap r) recs"
    by (simp add: countWhere_def sum_length_filter_compl)
  from parquetLoop_counts[OF st(1)] finish_stats[OF st(2)]
  show "stat_processed s = length recs"
    "stat_valid s = countWhere (acceptedRecord D zoneMap) recs"
    "stat_invalid s = countWhere (\<lambda>rec. \<not> acceptedRecord D zoneMap rec) recs"
    by (simp_all add: initialState_def)
  with c show "stat_processed s = stat_valid s + stat_invalid s" by simp
qed

lemma enrich_returns: "\<exists>t. enrich D (Some m) r c = Inr t"
  by (simp add: enrich_def Let_def)

lemma processRow_accept:
  assumes "isValidTrip D zoneMap r = Inr c" and "enrich D zoneMap r c = Inr t"
    and "batch st = []"
  shows "processRow D zoneMap query st r
    = Inr (st\<lparr>processed := processed st + 1, batch := [t], valid := valid st + 1\<rparr>)"
  using assms by (simp add: processRow_def Let_def BATCH_SIZE_def)

lemma processRow_reject:
  assumes "isValidTrip D zoneMap r = Inl rs" and "invalid st < 5000"
  shows "processRow D zoneMap query st r
    = Inr (st\<lparr>processed := processed st + 1, invalid := invalid st + 1,
              exclusions := exclusions st @ [(rs, r)]\<rparr>)"
  using assms by (simp add: processRow_def Let_def logExclusion_def)

lemma importFromCsv_example:
  "importFromCsv exampleDate (Some exampleZones) countingStore 0 [exampleRow, unknownZoneRow]
     = Inr (exampleStats, 1, [(invalid_or_unknown_zone, unknownZoneRow)])"
proof -
  obtain t where t: "enrich exampleDate (Some exampleZones) exampleRow exampleCtx = Inr t"
    using enrich_returns by blast
  show ?thesis
    by (simp add: importFromCsv_def initialState_def finish_def insertBatch_def
        countingStore_def exampleStats_def
        processRow_accept[OF isValidTrip_exampleRow t]
        processRow_reject[OF isValidTrip_unknownZoneRow])
qed

lemma rowFromParquetRecord_example:
  "\<exists>r c. rowFromParquetRecord exampleDate exampleRecord = Inr r
     \<and> isValidTrip exampleDate (Some exampleZones) r = Inr c"
  by (simp add: rowFromParquetRecord_def timeColumn_def exampleRecord_def passedColumns_def
      isValidTrip_def example_defs js_eval)

lemma rowFromParquetRecord_unknownZone:
  "\<exists>r. rowFromParquetRecord exampleDate unknownZoneRecord = Inr r
     \<and> isValidTrip exampleDate (Some exampleZones) r = Inl invalid_or_unknown_zone"
  by (simp add: rowFromParquetRecord_def timeColumn_def unknownZoneRecord_def exampleRecord_def
      passedColumns_def isValidTrip_def example_defs js_eval)

lemma importFromParquet_example:
  "\<exists>lg. importFromParquet exampleDate (Some exampleZones) countingStore 0
          [exampleRecord, unknownZoneRecord]
     = Inr (exampleStats, 1, lg)"
proof -
  from rowFromParquetRecord_example obtain r c where
    r: "rowFromParquetRecord exampleDate exampleRecord = Inr r"
    and c: "isValidTrip exampleDate (Some exampleZones) r = Inr c" by blast
  from rowFromParquetRecord_unknownZone obtain r' where
    r': "rowFromParquetRecord exampleDate unknownZoneRecord = Inr r'"
    and c': "isValidTrip exampleDate (Some exampleZones) r' = Inl invalid_or_unknown_zone"
    by blast
  obtain t where t: "enrich exampleDate (Some exampleZones) r c = Inr t"
    using enrich_returns by blast
  show ?thesis
    by (simp add: importFromParquet_def initialState_def finish_def insertBatch_def
        countingStore_def exampleStats_def r r'
        processRow_accept[OF c t] processRow_reject[OF c'])
qed

theorem import_statistics_witness:
  "importFromCsv exampleDate (Some exampleZones) countingStore 0 [exampleRow, unknownZoneRow]
     = Inr (exampleStats, 1, [(invalid_or_unknown_zone, unknownZoneRow)])
   \<and> (\<exists>lg. importFromParquet exampleDate (Some exampleZones) countingStore 0
          [exampleRecord, unknownZoneRecord] = Inr (exampleStats, 1, lg))
   \<and> stat_processed exampleStats = stat_valid exampleStats + stat_invalid exampleStats
   \<and> stat_valid exampleStats
       = countWhere (accepted exampleDate (Some exampleZones)) [exampleRow, unknownZoneRow]
   \<and> stat_valid exampleStats
       = countWhere (acceptedRecord exampleDate (Some exampleZones))
           [exampleRecord, unknownZoneRecord]"
proof -
  note a = importFromCsv_example
  from importFromParquet_example obtain lg where
    b: "importFromParquet exampleDate (Some exampleZones) countingStore 0
          [exampleRecord, unknownZoneRecord] = Inr (exampleStats, 1, lg)" by blast
  note t1 = import_statistics[of exampleDate "Some exampleZones" countingStore 0
      "[exampleRow, unknownZoneRow]" exampleStats 1
      "[(invalid_or_unknown_zone, unknownZoneRow)]", THEN conjunct1, rule_format, OF a]
  note t2 = import_statistics[of exampleDate "Some exampleZones" countingStore 0 _
      exampleStats 1 lg "[exampleRecord, unknownZoneRecord]", THEN conjunct2, rule_format, OF b]
  from a b t1 t2 show ?thesis by blast
qed

subsection \<open>The zone loader\<close>

lemma upsertRows_Cons_step:
  "upsertRows (r # rows) t = (if fitsColumns r then upsertRows rows (upsertStep r t) else
      Inl (if the (keyOf r) < - 2147483648 \<or> 2147483647 < the (keyOf r) then IntegerOutOfRange else ValueTooLong))"
proof (cases "keyOf r")
  case None
  then show ?thesis by (simp add: keyOf_def fitsColumns_def upsertStep_def)
next
  case (Some k)
  have m: "(\<lambda>x. if location_id x = k
                  then x\<lparr>borough := Some (trim (orEmpty (r ''Borough''))),
                          zone := Some (trim (orEmpty (r ''Zone''))),
                          service_zone := Some (trim (orEmpty (r ''service_zone'')))\<rparr>
                  else x) = setZone r"
    using Some by (auto simp add: setZone_def fun_eq_iff)
  from Some have p: "parseInt (toString (r ''LocationID'')) = Some k" by (simp add: keyOf_def)
  show ?thesis
    by (simp add: p Some fitsColumns_def upsertStep_def upsertZone_def m newZone_def not_less)
qed

lemma upsertRows_fold:
  "upsertRows rows t = Inr t' \<Longrightarrow> (\<forall>r \<in> set rows. fitsColumns r) \<and> t' = foldl (\<lambda>t r. upsertStep r t) t rows"
proof (induction rows arbitrary: t)
  case Nil then show ?case by simp
next
  case (Cons r rows)
  then show ?case by (simp only: upsertRows_Cons_step split: if_splits) auto
qed

lemma upsertRows_fits:
  "\<forall>r \<in> set rows. fitsColumns r \<Longrightarrow> upsertRows rows t = Inr (foldl (\<lambda>t r. upsertStep r t) t rows)"
proof (induction rows arbitrary: t)
  case Nil then show ?case by simp
next
  case (Cons r rows)
  then show ?case by (simp only: upsertRows_Cons_step) auto
qed

lemma location_id_setZone [simp]: "location_id (setZone r x) = location_id x"
  by (simp add: setZone_def)

lemma keys_upsertStep:
  "map location_id (upsertStep r t) =
     (case keyOf r of None \<Rightarrow> map location_id t
      | Some k \<Rightarrow> if k \<in> set (map location_id t) then map location_id t
                  else map location_id t @ [k])"
  by (cases "keyOf r") (auto simp add: upsertStep_def newZone_def)

lemma keys_upsertAll_mono: "set (map location_id t) \<subseteq> set (map location_id (upsertAll rows t))"
proof (induction rows arbitrary: t)
  case Nil then show ?case by simp
next
  case (Cons r rows)
  have "set (map location_id t) \<subseteq> set (map location_id (upsertStep r t))"
    by (simp only: keys_upsertStep) (auto split: option.splits)
  with Cons[of "upsertStep r t"] show ?case by auto
qed

lemma keys_upsertAll_rows:
  "r \<in> set rows \<Longrightarrow> keyOf r = Some k \<Longrightarrow> k \<in> set (map location_id (upsertAll rows t))"
proof (induction rows arbitrary: t)
  case Nil then show ?case by simp
next
  case (Cons a rows)
  show ?case
  proof (cases "r = a")
    case True
    with Cons.prems have "k \<in> set (map location_id (upsertStep a t))"
      by (simp only: keys_upsertStep) (auto split: option.splits)
    with keys_upsertAll_mono[of "upsertStep a t" rows] show ?thesis by auto
  next
    case False
    with Cons show ?thesis by auto
  qed
qed

lemma distinct_upsertStep:
  "distinct (map location_id t) \<Longrightarrow> distinct (map location_id (upsertStep r t))"
  by (simp only: keys_upsertStep) (auto split: option.splits)

lemma distinct_upsertAll:
  "distinct (map location_id t) \<Longrightarrow> distinct (map location_id (upsertAll rows t))"
  by (induction rows arbitrary: t) (simp_all add: distinct_upsertStep)

text \<open>When the table has every key of the rows, the loop maps each row of the table.\<close>

lemma upsertAll_map:
  "\<forall>r \<in> set rows. \<forall>k. keyOf r = Some k \<longrightarrow> k \<in> set (map location_id t) \<Longrightarrow>
     upsertAll rows t = map (\<lambda>x. foldl (\<lambda>x r. setZone r x) x rows) t"
proof (induction rows arbitrary: t)
  case Nil then show ?case by simp
next
  case (Cons r rows)
  have s: "upsertStep r t = map (setZone r) t"
    using Cons.prems by (cases "keyOf r") (auto simp add: upsertStep_def setZone_def intro!: map_idI[symmetric])
  have "\<forall>r' \<in> set rows. \<forall>k. keyOf r' = Some k \<longrightarrow> k \<in> set (map location_id (map (setZone r) t))"
    using Cons.prems by (auto simp add: comp_def)
  from Cons.IH[OF this] s show ?case by (simp add: comp_def)
qed

lemma setZone_absorb1:
  "setZone r x = setZone r y \<Longrightarrow> setZone r (setZone a x) = setZone r (setZone a y)"
  by (auto simp add: setZone_def split: if_splits)

lemma setZone_absorb:
  "setZone r x = setZone r y \<Longrightarrow> setZone r (settleZone rows x) = setZone r (settleZone rows y)"
proof (induction rows arbitrary: x y)
  case Nil then show ?case by simp
next
  case (Cons a rows)
  have "setZone r (setZone a x) = setZone r (setZone a y)"
    by (rule setZone_absorb1[OF Cons.prems])
  then have "setZone r (settleZone rows (setZone a x)) = setZone r (settleZone rows (setZone a y))"
    by (rule Cons.IH)
  then show ?case by simp
qed

lemma setZone_idem: "setZone r (setZone r x) = setZone r x"
  by (simp add: setZone_def)

lemma settleZone_other:
  "\<forall>r \<in> set rows. keyOf r \<noteq> Some (location_id x) \<Longrightarrow> settleZone rows x = x"
  by (induction rows arbitrary: x) (simp_all add: setZone_def)

lemma upsertAll_snoc: "upsertAll (rows @ [r]) t = upsertStep r (upsertAll rows t)"
  by simp

lemma upsertAll_idem:
  "upsertAll rows (upsertAll rows t) = upsertAll rows t"
proof (induction rows rule: rev_induct)
  case Nil then show ?case by simp
next
  case (snoc r rows)
  let ?T = "upsertAll rows t"
  have keysT: "\<forall>r' \<in> set rows. \<forall>k. keyOf r' = Some k \<longrightarrow> k \<in> set (map location_id ?T)"
    using keys_upsertAll_rows by blast
  have fixed: "settleZone rows x = x" if "x \<in> set ?T" for x
  proof -
    have "map (settleZone rows) ?T = upsertAll rows ?T" by (rule upsertAll_map[OF keysT, symmetric])
    also have "\<dots> = ?T" by (rule snoc.IH)
    finally have "map (settleZone rows) ?T = map id ?T" by simp
    with that show ?thesis unfolding map_eq_conv by simp
  qed
  have "upsertStep r (upsertAll rows (upsertStep r ?T)) = upsertStep r ?T"
  proof (cases "keyOf r")
    case None
    then have "upsertStep r u = u" for u by (simp add: upsertStep_def)
    then show ?thesis using snoc.IH by (simp only:)
  next
    case (Some k)
    show ?thesis
    proof (cases "k \<in> set (map location_id ?T)")
      case True
      let ?U = "map (setZone r) ?T"
      have s: "upsertStep r ?T = ?U" using Some True by (simp add: upsertStep_def)
      have keys': "\<forall>r' \<in> set rows. \<forall>k. keyOf r' = Some k \<longrightarrow> k \<in> set (map location_id ?U)"
        using keysT by (simp add: comp_def)
      have a: "upsertAll rows ?U = map (settleZone rows) ?U"
        by (rule upsertAll_map[OF keys'])
      have "k \<in> set (map location_id ?U)" using True by (simp add: comp_def)
      with keys_upsertAll_mono[of ?U rows] have "k \<in> set (map location_id (upsertAll rows ?U))" by blast
      then have b: "upsertStep r (upsertAll rows ?U) = map (setZone r) (upsertAll rows ?U)"
        using Some by (simp add: upsertStep_def)
      have c: "map (setZone r) (map (settleZone rows) ?U) = ?U"
      proof -
        have "setZone r (settleZone rows (setZone r x)) = setZone r x" if "x \<in> set ?T" for x
        proof -
          have "setZone r (settleZone rows (setZone r x)) = setZone r (settleZone rows x)"
            by (rule setZone_absorb) (rule setZone_idem)
          with fixed[OF that] show ?thesis by simp
        qed
        then show ?thesis by simp
      qed
      have "upsertStep r (upsertAll rows (upsertStep r ?T)) = upsertStep r (upsertAll rows ?U)" by (simp only: s)
      also have "\<dots> = map (setZone r) (upsertAll rows ?U)" by (rule b)
      also have "\<dots> = map (setZone r) (map (settleZone rows) ?U)" by (simp only: a)
      also have "\<dots> = ?U" by (rule c)
      also have "\<dots> = upsertStep r ?T" by (rule s[symmetric])
      finally show ?thesis .
    next
      case False
      let ?U = "?T @ [newZone r]"
      have s: "upsertStep r ?T = ?U" using Some False by (simp add: upsertStep_def)
      have keys': "\<forall>r' \<in> set rows. \<forall>k. keyOf r' = Some k \<longrightarrow> k \<in> set (map location_id ?U)"
        using keysT by auto
      have n: "settleZone rows (newZone r) = newZone r"
      proof (rule settleZone_other, intro ballI)
        fix r' assume "r' \<in> set rows"
        with keysT False show "keyOf r' \<noteq> Some (location_id (newZone r))"
          using Some by (auto simp add: newZone_def)
      qed
      have "upsertAll rows ?U = map (settleZone rows) ?U"
        by (rule upsertAll_map[OF keys'])
      also have "\<dots> = ?U" using fixed n by (simp add: map_idI)
      finally have a: "upsertAll rows ?U = ?U" .
      have "upsertStep r ?U = map (setZone r) ?U"
        using Some by (simp add: upsertStep_def newZone_def)
      also have "\<dots> = ?U"
      proof -
        have "\<forall>x \<in> set ?T. setZone r x = x" using False Some by (auto simp add: setZone_def)
        moreover have "setZone r (newZone r) = newZone r"
          by (simp add: setZone_def newZone_def)
        ultimately show ?thesis by (simp add: map_idI)
      qed
      finally have b: "upsertStep r ?U = ?U" .
      have "upsertStep r (upsertAll rows (upsertStep r ?T)) = upsertStep r (upsertAll rows ?U)" by (simp only: s)
      also have "\<dots> = upsertStep r ?U" by (simp only: a)
      also have "\<dots> = ?U" by (rule b)
      also have "\<dots> = upsertStep r ?T" by (rule s[symmetric])
      finally show ?thesis .
    qed
  qed
  then show ?case unfolding upsertAll_snoc .
qed

lemma upsertZone_conflict:
  assumes "locId \<in> set (map location_id t)" and "upsertZone locId b z s t = Inr t'"
  shows "t' = map (\<lambda>r. if location_id r = locId
      then r\<lparr>borough := Some b, zone := Some z, service_zone := Some s\<rparr> else r) t"
  using assms by (simp add: upsertZone_def split: if_splits)

lemma upsertStep_sets_row:
  assumes "keyOf r = Some k"
  shows "\<exists>x \<in> set (upsertStep r t). location_id x = k
           \<and> borough x = Some (trim (orEmpty (r ''Borough'')))
           \<and> zone x = Some (trim (orEmpty (r ''Zone'')))
           \<and> service_zone x = Some (trim (orEmpty (r ''service_zone'')))"
proof (cases "k \<in> set (map location_id t)")
  case True
  then obtain y where y: "y \<in> set t" "location_id y = k" by auto
  from True assms have "upsertStep r t = map (setZone r) t" by (simp add: upsertStep_def)
  with y have "setZone r y \<in> set (upsertStep r t)" by simp
  moreover from y(2) assms have "location_id (setZone r y) = k
      \<and> borough (setZone r y) = Some (trim (orEmpty (r ''Borough'')))
      \<and> zone (setZone r y) = Some (trim (orEmpty (r ''Zone'')))
      \<and> service_zone (setZone r y) = Some (trim (orEmpty (r ''service_zone'')))"
    by (simp add: setZone_def)
  ultimately show ?thesis by blast
next
  case False
  with assms have "upsertStep r t = t @ [newZone r]" by (simp add: upsertStep_def)
  then have "newZone r \<in> set (upsertStep r t)" by simp
  moreover from assms have "location_id (newZone r) = k
      \<and> borough (newZone r) = Some (trim (orEmpty (r ''Borough'')))
      \<and> zone (newZone r) = Some (trim (orEmpty (r ''Zone'')))
      \<and> service_zone (newZone r) = Some (trim (orEmpty (r ''service_zone'')))"
    by (simp add: newZone_def)
  ultimately show ?thesis by blast
qed

lemma upsertStep_keeps_row:
  assumes "x \<in> set t" and "keyOf r \<noteq> Some (location_id x)"
  shows "x \<in> set (upsertStep r t)"
proof (cases "keyOf r")
  case None
  with assms show ?thesis by (simp add: upsertStep_def)
next
  case (Some k)
  from assms(2) have "setZone r x = x" by (simp add: setZone_def)
  with assms(1) have "x \<in> set (map (setZone r) t)" by force
  with assms(1) Some show ?thesis by (simp add: upsertStep_def)
qed

lemma upsertAll_keeps_row:
  "x \<in> set t \<Longrightarrow> \<forall>r \<in> set rows. keyOf r \<noteq> Some (location_id x) \<Longrightarrow>
     x \<in> set (upsertAll rows t)"
proof (induction rows arbitrary: t)
  case Nil
  then show ?case by simp
next
  case (Cons r rows)
  from Cons.prems have "x \<in> set (upsertStep r t)" by (simp add: upsertStep_keeps_row)
  with Cons show ?case by simp
qed

lemma upsertAll_last_wins:
  assumes "keyOf r = Some k" and "\<forall>r' \<in> set post. keyOf r' \<noteq> Some k"
  shows "\<exists>x \<in> set (upsertAll (pre @ r # post) t). location_id x = k
           \<and> borough x = Some (trim (orEmpty (r ''Borough'')))
           \<and> zone x = Some (trim (orEmpty (r ''Zone'')))
           \<and> service_zone x = Some (trim (orEmpty (r ''service_zone'')))"
proof -
  from upsertStep_sets_row[OF assms(1), of "upsertAll pre t"]
  obtain x where x: "x \<in> set (upsertStep r (upsertAll pre t))" "location_id x = k"
    "borough x = Some (trim (orEmpty (r ''Borough'')))"
    "zone x = Some (trim (orEmpty (r ''Zone'')))"
    "service_zone x = Some (trim (orEmpty (r ''service_zone'')))" by blast
  from assms(2) x(2) have "\<forall>r' \<in> set post. keyOf r' \<noteq> Some (location_id x)" by simp
  from upsertAll_keeps_row[OF x(1) this]
  have "x \<in> set (upsertAll (pre @ r # post) t)" by simp
  with x show ?thesis by blast
qed

text \<open>
  C7. A second run of \<open>loadZonesFromLookup\<close> on the same lookup rows leaves the table of
  the first run as it is and returns the same count, and no \<open>location_id\<close> occurs twice in
  it. An upsert on a key that the table has updates the row in place: the table keeps its
  keys and its length, the row with the key takes the new borough, zone and service zone
  and keeps its centroid, and every other row stays as it is. After a run, the table holds
  under each key the values of the last lookup row that carries the key.
\<close>

theorem loadZonesFromLookup_idempotent:
  "(distinct (map location_id t) \<and> loadZonesFromLookup rows t = Inr (t1, n) \<longrightarrow>
      loadZonesFromLookup rows t1 = Inr (t1, n)
      \<and> distinct (map location_id t1))
   \<and> (locId \<in> set (map location_id t) \<and> upsertZone locId b z s t = Inr t' \<longrightarrow>
      map location_id t' = map location_id t \<and> length t' = length t
      \<and> (\<forall>i < length t.
            if location_id (t ! i) = locId
            then borough (t' ! i) = Some b \<and> zone (t' ! i) = Some z
                 \<and> service_zone (t' ! i) = Some s
                 \<and> centroid_lat (t' ! i) = centroid_lat (t ! i)
                 \<and> centroid_lon (t' ! i) = centroid_lon (t ! i)
            else t' ! i = t ! i))
   \<and> (loadZonesFromLookup rows t = Inr (t1, n) \<and> rows = pre @ r # post
        \<and> keyOf r = Some k \<and> (\<forall>r' \<in> set post. keyOf r' \<noteq> Some k) \<longrightarrow>
      (\<exists>x \<in> set t1. location_id x = k
         \<and> borough x = Some (trim (orEmpty (r ''Borough'')))
         \<and> zone x = Some (trim (orEmpty (r ''Zone'')))
         \<and> service_zone x = Some (trim (orEmpty (r ''service_zone'')))))"
proof (intro conjI impI)
  assume a: "distinct (map location_id t) \<and> loadZonesFromLookup rows t = Inr (t1, n)"
  then have u: "upsertRows rows t = Inr t1" and n: "n = length rows"
    by (auto simp add: loadZonesFromLookup_def split: sum.splits)
  from upsertRows_fold[OF u] have f: "\<forall>r \<in> set rows. fitsColumns r"
    and t1: "t1 = upsertAll rows t" by simp_all
  have "upsertRows rows t1 = Inr (upsertAll rows t1)" by (rule upsertRows_fits[OF f])
  also have "upsertAll rows t1 = t1" unfolding t1 by (rule upsertAll_idem)
  finally show "loadZonesFromLookup rows t1 = Inr (t1, n)"
    by (simp add: loadZonesFromLookup_def n)
  from a show "distinct (map location_id t1)" unfolding t1 by (simp add: distinct_upsertAll)
next
  assume a: "locId \<in> set (map location_id t) \<and> upsertZone locId b z s t = Inr t'"
  then have t': "t' = map (\<lambda>r. if location_id r = locId
      then r\<lparr>borough := Some b, zone := Some z, service_zone := Some s\<rparr> else r) t"
    using upsertZone_conflict by blast
  show "map location_id t' = map location_id t"
    unfolding t' by (simp add: comp_def if_distrib)
  show "length t' = length t" unfolding t' by simp
  show "\<forall>i < length t.
      if location_id (t ! i) = locId
      then borough (t' ! i) = Some b \<and> zone (t' ! i) = Some z
           \<and> service_zone (t' ! i) = Some s
           \<and> centroid_lat (t' ! i) = centroid_lat (t ! i)
           \<and> centroid_lon (t' ! i) = centroid_lon (t ! i)
      else t' ! i = t ! i"
    unfolding t' by simp
next
  assume a: "loadZonesFromLookup rows t = Inr (t1, n) \<and> rows = pre @ r # post
        \<and> keyOf r = Some k \<and> (\<forall>r' \<in> set post. keyOf r' \<noteq> Some k)"
  then have u: "upsertRows rows t = Inr t1"
    by (auto simp add: loadZonesFromLookup_def split: sum.splits)
  from upsertRows_fold[OF u] a have t1: "t1 = upsertAll (pre @ r # post) t" by simp
  from a have "keyOf r = Some k" "\<forall>r' \<in> set post. keyOf r' \<noteq> Some k" by simp_all
  from upsertAll_last_wins[OF this, where pre = pre and t = t]
  show "\<exists>x \<in> set t1. location_id x = k
         \<and> borough x = Some (trim (orEmpty (r ''Borough'')))
         \<and> zone x = Some (trim (orEmpty (r ''Zone'')))
         \<and> service_zone x = Some (trim (orEmpty (r ''service_zone'')))"
    unfolding t1 .
qed

lemmas zone_eval =
  loadZonesFromLookup_def upsertZone_def keyOf_def lookupRows_def staleZones_def
  refreshedZones_def loadedZones_def js_eval

theorem loadZonesFromLookup_idempotent_witness:
  "distinct (map location_id staleZones)
   \<and> loadZonesFromLookup lookupRows staleZones = Inr (refreshedZones, 2)
   \<and> loadZonesFromLookup lookupRows refreshedZones = Inr (refreshedZones, 2)
   \<and> distinct (map location_id refreshedZones)
   \<and> 7 \<in> set (map location_id refreshedZones)
   \<and> (\<exists>t'. upsertZone 7 ''Queens'' ''Steinway'' ''Boro Zone'' refreshedZones = Inr t'
         \<and> map location_id t' = map location_id refreshedZones
         \<and> length t' = length refreshedZones
         \<and> t' ! 0 = refreshedZones ! 0
         \<and> borough (t' ! 1) = Some ''Queens'' \<and> zone (t' ! 1) = Some ''Steinway''
         \<and> service_zone (t' ! 1) = Some ''Boro Zone''
         \<and> centroid_lat (t' ! 1) = centroid_lat (refreshedZones ! 1))
   \<and> keyOf (lookupRows ! 0) = Some 1
   \<and> (\<exists>x \<in> set refreshedZones. location_id x = 1
         \<and> borough x = Some ''EWR'' \<and> zone x = Some ''Newark Airport''
         \<and> service_zone x = Some ''EWR'')"
proof -
  have d: "distinct (map location_id staleZones)" by (simp add: staleZones_def)
  have l: "loadZonesFromLookup lookupRows staleZones = Inr (refreshedZones, 2)"
    by (simp add: zone_eval)
  have k: "7 \<in> set (map location_id refreshedZones)" by (simp add: refreshedZones_def)
  have "\<exists>t'. upsertZone 7 ''Queens'' ''Steinway'' ''Boro Zone'' refreshedZones = Inr t'"
    by (simp add: zone_eval)
  then obtain t' where
    u: "upsertZone 7 ''Queens'' ''Steinway'' ''Boro Zone'' refreshedZones = Inr t'" by blast
  note a = loadZonesFromLookup_idempotent[where t = staleZones and rows = lookupRows
      and ?t1.0 = refreshedZones and n = 2, THEN conjunct1, rule_format, OF conjI[OF d l]]
  note b = loadZonesFromLookup_idempotent[where t = refreshedZones and locId = 7
      and b = "''Queens''" and z = "''Steinway''" and s = "''Boro Zone''" and t' = t',
      THEN conjunct2, THEN conjunct1, rule_format, OF conjI[OF k u]]
  have i0: "(0::nat) < length refreshedZones" "location_id (refreshedZones ! 0) \<noteq> 7"
    and i1: "(1::nat) < length refreshedZones" "location_id (refreshedZones ! 1) = 7"
    by (simp_all add: refreshedZones_def)
  from b have b1: "map location_id t' = map location_id refreshedZones"
    and b2: "length t' = length refreshedZones"
    and b3: "\<forall>i < length refreshedZones.
      if location_id (refreshedZones ! i) = 7
      then borough (t' ! i) = Some ''Queens'' \<and> zone (t' ! i) = Some ''Steinway''
           \<and> service_zone (t' ! i) = Some ''Boro Zone''
           \<and> centroid_lat (t' ! i) = centroid_lat (refreshedZones ! i)
           \<and> centroid_lon (t' ! i) = centroid_lon (refreshedZones ! i)
      else t' ! i = refreshedZones ! i"
    by blast+
  from b3[rule_format, OF i0(1)] i0(2) have c0: "t' ! 0 = refreshedZones ! 0" by simp
  from b3[rule_format, OF i1(1)] i1(2)
  have c1: "borough (t' ! 1) = Some ''Queens''" "zone (t' ! 1) = Some ''Steinway''"
    "service_zone (t' ! 1) = Some ''Boro Zone''"
    "centroid_lat (t' ! 1) = centroid_lat (refreshedZones ! 1)"
    by simp_all
  have ky: "keyOf (lookupRows ! 0) = Some 1" by (simp add: zone_eval)
  have sp: "lookupRows = [] @ (lookupRows ! 0) # [lookupRows ! 1]"
    by (simp add: lookupRows_def)
  have ot: "\<forall>r' \<in> set [lookupRows ! 1]. keyOf r' \<noteq> Some 1" by (simp add: zone_eval)
  note c = loadZonesFromLookup_idempotent[where t = staleZones and rows = lookupRows
      and ?t1.0 = refreshedZones and n = 2 and pre = "[]" and r = "lookupRows ! 0"
      and post = "[lookupRows ! 1]" and k = 1,
      THEN conjunct2, THEN conjunct2, rule_format, OF conjI[OF l conjI[OF sp conjI[OF ky ot]]]]
  have v: "trim (orEmpty ((lookupRows ! 0) ''Borough'')) = ''EWR''"
    "trim (orEmpty ((lookupRows ! 0) ''Zone'')) = ''Newark Airport''"
    "trim (orEmpty ((lookupRows ! 0) ''service_zone'')) = ''EWR''"
    by (simp_all add: zone_eval)
  from c have e: "\<exists>x \<in> set refreshedZones. location_id x = 1
         \<and> borough x = Some ''EWR'' \<and> zone x = Some ''Newark Airport''
         \<and> service_zone x = Some ''EWR''"
    unfolding v .
  have f: "\<exists>t'. upsertZone 7 ''Queens'' ''Steinway'' ''Boro Zone'' refreshedZones = Inr t'
         \<and> map location_id t' = map location_id refreshedZones
         \<and> length t' = length refreshedZones
         \<and> t' ! 0 = refreshedZones ! 0
         \<and> borough (t' ! 1) = Some ''Queens'' \<and> zone (t' ! 1) = Some ''Steinway''
         \<and> service_zone (t' ! 1) = Some ''Boro Zone''
         \<and> centroid_lat (t' ! 1) = centroid_lat (refreshedZones ! 1)"
    using u b1 b2 c0 c1 by (intro exI[of _ t'] conjI)
  show ?thesis
    by (rule conjI[OF d conjI[OF l conjI[OF a[THEN conjunct1] conjI[OF a[THEN conjunct2]
          conjI[OF k conjI[OF f conjI[OF ky e]]]]]]])
qed

text \<open>
  C8. On a lookup file with a row whose \<open>LocationID\<close> is not numeric,
  \<open>loadZonesFromLookup\<close> skips that row, loads one zone into the empty table and returns 2,
  the number of rows of the file.
\<close>

theorem loadZonesFromLookup_counts_skipped_rows:
  "loadZonesFromLookup lookupRows [] = Inr (loadedZones, 2) \<and> length loadedZones = 1"
  by (simp add: zone_eval)

subsection \<open>The clusterer\<close>

lemma drawUnused_result:
  assumes "drawUnused rng n pos used = Some y"
  shows "fst y \<notin> set used \<and> pos < snd y \<and> fst y = randomIndex rng (snd y - 1) n"
proof (rule drawUnused.raw_induct
    [where P = "\<lambda>rng n pos used y.
       fst y \<notin> set used \<and> pos < snd y \<and> fst y = randomIndex rng (snd y - 1) n",
     OF _ assms])
  fix f :: "(nat \<Rightarrow> real) \<Rightarrow> nat \<Rightarrow> nat \<Rightarrow> int list \<Rightarrow> (int \<times> nat) option"
    and rng n pos used y
  assume IH: "\<And>rng n pos used y. f rng n pos used = Some y \<Longrightarrow>
      fst y \<notin> set used \<and> pos < snd y \<and> fst y = randomIndex rng (snd y - 1) n"
    and body: "(let i = randomIndex rng pos n
                in if i \<in> set used then f rng n (Suc pos) used else Some (i, Suc pos)) = Some y"
  show "fst y \<notin> set used \<and> pos < snd y \<and> fst y = randomIndex rng (snd y - 1) n"
  proof (cases "randomIndex rng pos n \<in> set used")
    case True
    with body have "f rng n (Suc pos) used = Some y" by (simp add: Let_def)
    from IH[OF this] show ?thesis by auto
  next
    case False
    with body show ?thesis by (auto simp add: Let_def)
  qed
qed

lemma drawUnused_Some:
  assumes "drawUnused rng n pos used = Some (i, pos')"
  shows "i \<notin> set used" and "pos < pos'" and "i = randomIndex rng (pos' - 1) n"
  using drawUnused_result[OF assms] unfolding fst_conv snd_conv by blast+

lemma drawUnused_None:
  assumes "\<forall>j \<ge> pos. randomIndex rng j n \<in> set used"
  shows "drawUnused rng n pos used = None"
proof (cases "drawUnused rng n pos used")
  case None then show ?thesis .
next
  case (Some y)
  obtain i pos' where y: "y = (i, pos')" by (cases y)
  from Some y have d: "drawUnused rng n pos used = Some (i, pos')" by simp
  note r = drawUnused_Some[OF d]
  from r(2) have "pos \<le> pos' - 1" by simp
  with assms have "randomIndex rng (pos' - 1) n \<in> set used" by blast
  with r(1,3) show ?thesis by simp
qed

lemma drawUnused_terminates:
  "pos \<le> j \<Longrightarrow> randomIndex rng j n \<notin> set used \<Longrightarrow>
     \<exists>i pos'. drawUnused rng n pos used = Some (i, pos')"
proof (induction "j - pos" arbitrary: pos)
  case 0
  then have "j = pos" by simp
  with 0 show ?case by (subst drawUnused.simps) (simp add: Let_def)
next
  case (Suc d)
  show ?case
  proof (cases "randomIndex rng pos n \<in> set used")
    case True
    from Suc have "d = j - Suc pos" "Suc pos \<le> j" by auto
    from Suc(1)[OF this Suc(4)] True show ?thesis
      by (subst drawUnused.simps) (simp add: Let_def)
  next
    case False
    then show ?thesis by (subst drawUnused.simps) (simp add: Let_def)
  qed
qed

lemma randomIndex_range:
  "validRandom rng \<Longrightarrow> 0 < n \<Longrightarrow> 0 \<le> randomIndex rng j n \<and> randomIndex rng j n < int n"
proof -
  assume v: "validRandom rng" and n: "0 < n"
  then have a: "0 \<le> rng j * real n" "rng j * real n < real n"
    by (simp_all add: validRandom_def)
  from a(1) have "0 \<le> \<lfloor>rng j * real n\<rfloor>" by simp
  moreover from a(2) have "\<lfloor>rng j * real n\<rfloor> < int n" by (simp add: floor_less_iff)
  ultimately show ?thesis by (simp add: randomIndex_def)
qed

lemma unused_index_exists:
  assumes "distinct used" "\<forall>i \<in> set used. 0 \<le> i \<and> i < int n" "length used < n"
  shows "\<exists>i < n. int i \<notin> set used"
proof (rule ccontr)
  assume "\<not> ?thesis"
  then have "int ` {..<n} \<subseteq> set used" by auto
  then have "card (int ` {..<n}) \<le> card (set used)" by (simp add: card_mono)
  moreover have "card (int ` {..<n}) = n" by (simp add: card_image)
  moreover have "card (set used) = length used" using assms(1) by (simp add: distinct_card)
  ultimately show False using assms(3) by simp
qed

lemma initLoop_Some:
  "initLoop rng data j pos used cs = Some (cs', pos') \<Longrightarrow> distinct used \<Longrightarrow>
     \<exists>new. length new = j \<and> distinct (used @ new)
        \<and> cs' = cs @ map (copyPoint data) new
        \<and> (\<forall>i \<in> set new. \<exists>q. i = randomIndex rng q (length data))"
proof (induction j arbitrary: pos used cs)
  case 0
  then show ?case by simp
next
  case (Suc j)
  from Suc.prems(1) obtain i p where d: "drawUnused rng (length data) pos used = Some (i, p)"
    and r: "initLoop rng data j p (used @ [i]) (cs @ [copyPoint data i]) = Some (cs', pos')"
    by (auto split: option.splits)
  note i = drawUnused_Some(1)[OF d] drawUnused_Some(3)[OF d]
  with Suc.prems(2) have "distinct (used @ [i])" by simp
  from Suc.IH[OF r this] obtain new where new: "length new = j" "distinct ((used @ [i]) @ new)"
    "cs' = (cs @ [copyPoint data i]) @ map (copyPoint data) new"
    "\<forall>i \<in> set new. \<exists>q. i = randomIndex rng q (length data)" by blast
  show ?case
  proof (intro exI[of _ "i # new"] conjI)
    show "length (i # new) = Suc j" using new(1) by simp
    show "distinct (used @ i # new)" using new(2) by simp
    show "cs' = cs @ map (copyPoint data) (i # new)" using new(3) by simp
    show "\<forall>i \<in> set (i # new). \<exists>q. i = randomIndex rng q (length data)"
      using new(4) i(2) by auto
  qed
qed

lemma initLoop_terminates:
  assumes v: "validRandom rng" and f: "everyIndexRecurs rng (length data)"
  shows "distinct used \<Longrightarrow> \<forall>i \<in> set used. 0 \<le> i \<and> i < int (length data) \<Longrightarrow>
     length used + j \<le> length data \<Longrightarrow>
     \<exists>r. initLoop rng data j pos used cs = Some r"
proof (induction j arbitrary: pos used cs)
  case 0
  then show ?case by simp
next
  case (Suc j)
  then have lt: "length used < length data" by simp
  from unused_index_exists[OF Suc.prems(1,2) lt] obtain i0 where
    i0: "i0 < length data" "int i0 \<notin> set used" by blast
  from f i0(1) obtain q where q: "pos \<le> q" "randomIndex rng q (length data) = int i0"
    unfolding everyIndexRecurs_def by blast
  from drawUnused_terminates[OF q(1), of rng "length data" used] q(2) i0(2)
  obtain i p where d: "drawUnused rng (length data) pos used = Some (i, p)" by auto
  note i = drawUnused_Some(1)[OF d] drawUnused_Some(3)[OF d]
  from lt have "0 < length data" by (cases data) simp_all
  from randomIndex_range[OF v this, of "p - 1"] i(2) have "0 \<le> i \<and> i < int (length data)" by simp
  with Suc.prems i have "distinct (used @ [i])"
    "\<forall>x \<in> set (used @ [i]). 0 \<le> x \<and> x < int (length data)"
    "length (used @ [i]) + j \<le> length data" by auto
  from Suc.IH[OF this] d show ?case by simp
qed

lemma initializeCentroids_shape:
  assumes "data \<noteq> []" and "validRandom rng"
    and r: "initializeCentroids rng pos data k = Some (cs, pos')"
  shows "\<exists>idx. length cs = nat k \<and> length idx = nat k \<and> distinct idx
           \<and> (\<forall>i \<in> set idx. i < length data)
           \<and> cs = map (\<lambda>i. centroid.truncate (data ! i)) idx"
proof -
  from r have r': "initLoop rng data (nat k) pos [] [] = Some (cs, pos')"
    by (simp add: initializeCentroids_def)
  from initLoop_Some[OF r'] obtain new where new: "length new = nat k" "distinct new"
    "cs = map (copyPoint data) new"
    "\<forall>i \<in> set new. \<exists>q. i = randomIndex rng q (length data)" by auto
  from assms(1) have n: "0 < length data" by simp
  have rg: "\<forall>i \<in> set new. 0 \<le> i \<and> i < int (length data)"
    using new(4) randomIndex_range[OF assms(2) n] by auto
  let ?idx = "map nat new"
  have "inj_on nat (set new)"
  proof (rule inj_onI)
    fix x y assume "x \<in> set new" "y \<in> set new" "nat x = nat y"
    with rg show "x = y" by (simp add: eq_nat_nat_iff)
  qed
  with new(2) have "distinct ?idx" by (simp add: distinct_map)
  moreover have "\<forall>i \<in> set ?idx. i < length data" using rg by auto
  moreover have "cs = map (\<lambda>i. centroid.truncate (data ! i)) ?idx"
    using new(3) rg by (auto simp add: copyPoint_def)
  moreover have "length ?idx = nat k" using new(1) by simp
  moreover have "length cs = nat k" using new(1,3) by simp
  ultimately show ?thesis by blast
qed

lemma initializeCentroids_returns:
  assumes "1 \<le> k" "k \<le> int (length data)"
    and "validRandom rng" "everyIndexRecurs rng (length data)"
  shows "\<exists>r. initializeCentroids rng pos data k = Some r"
  unfolding initializeCentroids_def
  by (rule initLoop_terminates[OF assms(3,4)]) (use assms in auto)

text \<open>
  C9, amended. For a non-empty point set, \<open>1 \<le> k \<le> points.length\<close> and a source of random
  numbers in \<open>[0, 1)\<close>: whenever \<open>initializeCentroids\<close> returns, it returns exactly \<open>k\<close>
  centroids that are copies of the points at \<open>k\<close> pairwise distinct indices; and it does
  return when every index recurs in the source.
\<close>

theorem initializeCentroids_distinct_copies:
  "data \<noteq> [] \<and> 1 \<le> k \<and> k \<le> int (length data) \<and> validRandom rng \<longrightarrow>
     (\<forall>cs pos'. initializeCentroids rng pos data k = Some (cs, pos') \<longrightarrow>
        (\<exists>idx. length cs = nat k \<and> length idx = nat k \<and> distinct idx
           \<and> (\<forall>i \<in> set idx. i < length data)
           \<and> cs = map (\<lambda>i. centroid.truncate (data ! i)) idx))
     \<and> (everyIndexRecurs rng (length data) \<longrightarrow>
          (\<exists>r. initializeCentroids rng pos data k = Some r))"
proof (intro impI conjI allI)
  fix cs pos'
  assume a: "data \<noteq> [] \<and> 1 \<le> k \<and> k \<le> int (length data) \<and> validRandom rng"
    and r: "initializeCentroids rng pos data k = Some (cs, pos')"
  from a have "data \<noteq> []" "validRandom rng" by simp_all
  from initializeCentroids_shape[OF this r]
  show "\<exists>idx. length cs = nat k \<and> length idx = nat k \<and> distinct idx
           \<and> (\<forall>i \<in> set idx. i < length data)
           \<and> cs = map (\<lambda>i. centroid.truncate (data ! i)) idx" .
next
  assume a: "data \<noteq> [] \<and> 1 \<le> k \<and> k \<le> int (length data) \<and> validRandom rng"
    and f: "everyIndexRecurs rng (length data)"
  from a have "1 \<le> k" "k \<le> int (length data)" "validRandom rng" by simp_all
  from initializeCentroids_returns[OF this f]
  show "\<exists>r. initializeCentroids rng pos data k = Some r" .
qed

lemma validRandom_rngAlternating: "validRandom rngAlternating"
  by (simp add: validRandom_def rngAlternating_def)

lemma everyIndexRecurs_rngAlternating: "everyIndexRecurs rngAlternating 2"
  unfolding everyIndexRecurs_def
proof (intro allI impI)
  fix i p :: nat
  assume "i < 2"
  then have "i = 0 \<or> i = 1" by auto
  then have "2 * p + i \<ge> p \<and> randomIndex rngAlternating (2 * p + i) 2 = int i"
    by (auto simp add: randomIndex_def rngAlternating_def)
  then show "\<exists>j \<ge> p. randomIndex rngAlternating j 2 = int i" by blast
qed

lemma initializeCentroids_example:
  "initializeCentroids rngAlternating 0 [pointA, pointB] 2
     = Some ([centroid.truncate pointA, centroid.truncate pointB], 2)"
  by (simp add: initializeCentroids_def numeral_eq_Suc drawUnused.simps randomIndex_def
      rngAlternating_def copyPoint_def)

theorem initializeCentroids_distinct_copies_witness:
  "[pointA, pointB] \<noteq> [] \<and> (1::int) \<le> 2 \<and> (2::int) \<le> int (length [pointA, pointB])
   \<and> validRandom rngAlternating \<and> everyIndexRecurs rngAlternating (length [pointA, pointB])
   \<and> initializeCentroids rngAlternating 0 [pointA, pointB] 2
        = Some ([centroid.truncate pointA, centroid.truncate pointB], 2)
   \<and> (\<exists>idx. length [centroid.truncate pointA, centroid.truncate pointB] = nat 2
         \<and> length idx = nat 2 \<and> distinct idx
         \<and> (\<forall>i \<in> set idx. i < length [pointA, pointB])
         \<and> [centroid.truncate pointA, centroid.truncate pointB]
             = map (\<lambda>i. centroid.truncate ([pointA, pointB] ! i)) idx)
   \<and> (\<exists>r. initializeCentroids rngAlternating 5 [pointA, pointB] 2 = Some r)"
proof -
  have h: "[pointA, pointB] \<noteq> [] \<and> (1::int) \<le> 2 \<and> (2::int) \<le> int (length [pointA, pointB])
      \<and> validRandom rngAlternating"
    by (simp add: validRandom_rngAlternating)
  have "length [pointA, pointB] = 2" by simp
  then have f: "everyIndexRecurs rngAlternating (length [pointA, pointB])"
    using everyIndexRecurs_rngAlternating by (simp only:)
  note t = initializeCentroids_distinct_copies[where data = "[pointA, pointB]" and k = 2
      and rng = rngAlternating, rule_format, OF h]
  note a = t[where pos = 0, THEN conjunct1, rule_format, OF initializeCentroids_example]
  note b = t[where pos = 5, THEN conjunct2, rule_format, OF f]
  show ?thesis
    by (rule conjI[OF h[THEN conjunct1] conjI[OF h[THEN conjunct2, THEN conjunct1]
          conjI[OF h[THEN conjunct2, THEN conjunct2, THEN conjunct1]
            conjI[OF h[THEN conjunct2, THEN conjunct2, THEN conjunct2]
              conjI[OF f conjI[OF initializeCentroids_example conjI[OF a b]]]]]]])
qed

lemma drawUnused_rngZero: "drawUnused rngZero (Suc (Suc 0)) pos [0] = None"
  by (rule drawUnused_None) (simp add: randomIndex_def rngZero_def)

lemma drawUnused_rngZero_first: "drawUnused rngZero (Suc (Suc 0)) 0 [] = Some (0, Suc 0)"
  by (subst drawUnused.simps) (simp add: randomIndex_def rngZero_def)

text \<open>
  C9 as stated fails: on two points with \<open>k = 2\<close>, a source that always returns 0 makes the
  second round of \<open>initializeCentroids\<close> draw the used index 0 for ever.
\<close>

theorem initializeCentroids_constant_source_counterexample:
  "[pointA, pointB] \<noteq> [] \<and> (1::int) \<le> 2 \<and> (2::int) \<le> int (length [pointA, pointB])
   \<and> validRandom rngZero \<and> initializeCentroids rngZero 0 [pointA, pointB] 2 = None"
  by (simp add: validRandom_def rngZero_def initializeCentroids_def numeral_eq_Suc
      drawUnused_rngZero_first drawUnused_rngZero)

text \<open>
  C4. \<open>kMeans\<close> returns the empty list on an empty point set, and on a non-empty one with
  \<open>k \<le> 0\<close> or \<open>k > points.length\<close> it returns one cluster, the input itself.
\<close>

theorem kMeans_degenerate:
  "kMeans rng [] k maxIterations = Some []
   \<and> (data \<noteq> [] \<and> (k \<le> 0 \<or> k > int (length data)) \<longrightarrow>
        kMeans rng data k maxIterations = Some [data])"
  by (auto simp add: kMeans_def)

theorem kMeans_degenerate_witness:
  "[pointA, pointB] \<noteq> [] \<and> ((0::int) \<le> 0 \<or> (0::int) > int (length [pointA, pointB]))
   \<and> kMeans rngHalf [pointA, pointB] 0 100 = Some [[pointA, pointB]]
   \<and> ((3::int) \<le> 0 \<or> (3::int) > int (length [pointA, pointB]))
   \<and> kMeans rngHalf [pointA, pointB] 3 100 = Some [[pointA, pointB]]"
proof -
  have h0: "[pointA, pointB] \<noteq> [] \<and> ((0::int) \<le> 0 \<or> (0::int) > int (length [pointA, pointB]))"
    by simp
  have h3: "[pointA, pointB] \<noteq> [] \<and> ((3::int) \<le> 0 \<or> (3::int) > int (length [pointA, pointB]))"
    by simp
  note a = kMeans_degenerate[where rng = rngHalf and data = "[pointA, pointB]" and k = 0
      and maxIterations = 100, THEN conjunct2, rule_format, OF h0]
  note b = kMeans_degenerate[where rng = rngHalf and data = "[pointA, pointB]" and k = 3
      and maxIterations = 100, THEN conjunct2, rule_format, OF h3]
  show ?thesis
    by (rule conjI[OF h0[THEN conjunct1] conjI[OF h0[THEN conjunct2]
          conjI[OF a conjI[OF h3[THEN conjunct2] b]]]])
qed

lemma initializeCentroids_rngHalf:
  "initializeCentroids rngHalf 0 [pointA, pointB] 2
     = Some ([centroid.truncate pointA, centroid.truncate pointB], 2)"
  by (simp add: initializeCentroids_def numeral_eq_Suc drawUnused.simps randomIndex_def
      rngHalf_def copyPoint_def)

lemma assignAll_example:
  "assignAll [centroid.truncate pointA, centroid.truncate pointB] 2 [pointA, pointB]
     = [[pointA], [pointB]]"
  by (simp add: assignAll_def assign_def nearest_def calculateDistance_def minimum_def orZero_def
      pointA_def pointB_def centroid.truncate_def Let_def numeral_eq_Suc)

lemma iterations_numeral:
  "iterations rng data k (numeral m) pos centroids clusters =
     (let clusters' = assignAll centroids k data;
          (new, pos') = newCentroids rng pos data clusters'
      in if converged centroids new then clusters'
         else iterations rng data k (pred_numeral m) pos' new clusters')"
  by (simp add: numeral_eq_Suc)

lemma kMeans_two_points:
  "kMeans rngHalf [pointA, pointB] 2 100 = Some [[pointA], [pointB]]"
  apply (simp add: kMeans_def initializeCentroids_rngHalf iterations_numeral assignAll_example)
  apply (simp add: average_def converged_def calculateDistance_def below_def element_def orZero_def
      pointA_def pointB_def centroid.truncate_def Let_def upt_rec)
  done

text \<open>
  C5 as stated fails: with two distinct points and \<open>k = 2 = points.length\<close> the clusterer
  runs and returns two clusters of one point each.
\<close>

theorem kMeans_k_equal_length_counterexample:
  "[pointA, pointB] \<noteq> [] \<and> (2::int) \<ge> int (length [pointA, pointB])
   \<and> kMeans rngHalf [pointA, pointB] 2 100 = Some [[pointA], [pointB]]
   \<and> kMeans rngHalf [pointA, pointB] 2 100 \<noteq> Some [[pointA, pointB]]"
  by (simp add: kMeans_two_points)

text \<open>
  C5, amended. For a non-empty point set and \<open>k > points.length\<close>, \<open>kMeans\<close> returns exactly
  one cluster, the whole input.
\<close>

theorem kMeans_k_above_length:
  "data \<noteq> [] \<and> k > int (length data) \<longrightarrow> kMeans rng data k maxIterations = Some [data]"
  by (simp add: kMeans_def)

theorem kMeans_k_above_length_witness:
  "[pointA, pointB] \<noteq> [] \<and> (3::int) > int (length [pointA, pointB])
   \<and> kMeans rngZero [pointA, pointB] 3 100 = Some [[pointA, pointB]]"
proof -
  have h: "[pointA, pointB] \<noteq> [] \<and> (3::int) > int (length [pointA, pointB])" by simp
  note a = kMeans_k_above_length[where rng = rngZero and data = "[pointA, pointB]" and k = 3
      and maxIterations = 100, rule_format, OF h]
  show ?thesis by (rule conjI[OF h[THEN conjunct1] conjI[OF h[THEN conjunct2] a]])
qed

text \<open>
  C6 as stated fails: with \<open>maxIterations = 0\<close> the loop body, which holds the assignment
  step, is never run, and \<open>kMeans\<close> returns no cluster at all, where the initial assignment
  has two.
\<close>

theorem kMeans_zero_iterations_counterexample:
  "kMeans rngHalf [pointA, pointB] 2 0 = Some []
   \<and> initialAssignment rngHalf [pointA, pointB] 2 = Some [[pointA], [pointB]]"
  by (simp add: kMeans_def initialAssignment_def initializeCentroids_rngHalf assignAll_example)

text \<open>
  C6, amended. For a non-empty point set and \<open>1 \<le> k \<le> points.length\<close>, \<open>kMeans\<close> with
  \<open>maxIterations = 0\<close> runs no iteration, and returns the empty list of clusters once the
  initial centroids are drawn, as they are from a source in \<open>[0, 1)\<close> where every index
  recurs.
\<close>

theorem kMeans_zero_iterations:
  "data \<noteq> [] \<and> 1 \<le> k \<and> k \<le> int (length data) \<longrightarrow>
     (\<forall>r. initializeCentroids rng 0 data k = Some r \<longrightarrow> kMeans rng data k 0 = Some [])
     \<and> (validRandom rng \<and> everyIndexRecurs rng (length data) \<longrightarrow>
          kMeans rng data k 0 = Some [])"
proof (intro impI conjI allI)
  fix r
  assume a: "data \<noteq> [] \<and> 1 \<le> k \<and> k \<le> int (length data)"
    and r: "initializeCentroids rng 0 data k = Some r"
  then show "kMeans rng data k 0 = Some []"
    by (cases r) (simp add: kMeans_def)
next
  assume a: "data \<noteq> [] \<and> 1 \<le> k \<and> k \<le> int (length data)"
    and v: "validRandom rng \<and> everyIndexRecurs rng (length data)"
  from a v have "\<exists>r. initializeCentroids rng 0 data k = Some r"
    by (intro initializeCentroids_returns) simp_all
  then obtain r where r: "initializeCentroids rng 0 data k = Some r" by blast
  with a show "kMeans rng data k 0 = Some []"
    by (cases r) (simp add: kMeans_def)
qed

theorem kMeans_zero_iterations_witness:
  "[pointA, pointB] \<noteq> [] \<and> (1::int) \<le> 2 \<and> (2::int) \<le> int (length [pointA, pointB])
   \<and> initializeCentroids rngAlternating 0 [pointA, pointB] 2
        = Some ([centroid.truncate pointA, centroid.truncate pointB], 2)
   \<and> validRandom rngAlternating \<and> everyIndexRecurs rngAlternating (length [pointA, pointB])
   \<and> kMeans rngAlternating [pointA, pointB] 2 0 = Some []"
proof -
  have h: "[pointA, pointB] \<noteq> [] \<and> (1::int) \<le> 2 \<and> (2::int) \<le> int (length [pointA, pointB])"
    by simp
  have "length [pointA, pointB] = 2" by simp
  then have f: "everyIndexRecurs rngAlternating (length [pointA, pointB])"
    using everyIndexRecurs_rngAlternating by (simp only:)
  note t = kMeans_zero_iterations[where data = "[pointA, pointB]" and k = 2
      and rng = rngAlternating, rule_format, OF h]
  note a = t[THEN conjunct1, rule_format, OF initializeCentroids_example]
  note b = t[THEN conjunct2, rule_format, OF conjI[OF validRandom_rngAlternating f]]
  show ?thesis
    by (rule conjI[OF h[THEN conjunct1] conjI[OF h[THEN conjunct2, THEN conjunct1]
          conjI[OF h[THEN conjunct2, THEN conjunct2] conjI[OF initializeCentroids_example
            conjI[OF validRandom_rngAlternating conjI[OF f b]]]]]])
qed

end
